theory Spec2Isabelle
  imports Complex_Main "HOL-Library.Word" "HOL-Library.Sublist"
begin

unbundle bit_operations_syntax

section \<open>Data model of \<open>DynamixelHardware\<close>\<close>

text \<open>
  The embedding follows \<^verbatim>\<open>dynamixel_hardware_interface.cpp\<close>. The class header
  and the \<^verbatim>\<open>Dynamixel\<close> driver class (the object behind \<^verbatim>\<open>dxl_comm_\<close>) are not part
  of the sources, so the member types are read off their uses in the \<^verbatim>\<open>.cpp\<close> file and
  the driver is an oracle: a record of functions that give the answer of every call.
  Member names lose their trailing underscore (\<^verbatim>\<open>dxl_status_\<close> is \<open>dxl_status\<close>),
  which Isabelle does not accept in a constant name. A finite \<^verbatim>\<open>double\<close> is the \<open>real\<close>
  it denotes. The one computation on doubles that the source performs, the statement
  \<^verbatim>\<open>value += a * b\<close> of the kinematic mapping, rounds: the product and the sum are
  rounded one after the other, or once together where the compiler fuses them. The
  double that the statement leaves in \<^verbatim>\<open>value\<close> is \<open>double_mul_add value a b\<close>, a
  parameter of the model of which nothing is assumed.
  Only the error and warning messages of the logger are modelled, as values of
  \<open>log_msg\<close>; the informational messages are left out.
\<close>

type_synonym u8 = "8 word"
type_synonym u32 = "32 word"

datatype DxlStatus = DXL_OK | HW_ERROR | COMM_ERROR | REBOOTING

datatype DxlTorqueStatus =
  TORQUE_ENABLED | TORQUE_DISABLED | REQUESTED_TO_ENABLE | REQUESTED_TO_DISABLE

text \<open>
  \<^verbatim>\<open>DxlError\<close>: the source names the codes \<^verbatim>\<open>OK\<close> and \<^verbatim>\<open>DLX_HARDWARE_ERROR\<close>; every
  other code of the enumeration (the transport failures) is \<open>TRANSPORT_FAIL n\<close>.
\<close>

datatype DxlError = OK | DLX_HARDWARE_ERROR | TRANSPORT_FAIL nat

text \<open>\<^verbatim>\<open>hardware_interface::return_type\<close> and \<^verbatim>\<open>hardware_interface::CallbackReturn\<close>.\<close>

datatype return_type = return_OK | return_ERROR

datatype CallbackReturn = SUCCESS | FAILURE | ERROR

text \<open>
  \<^verbatim>\<open>HandlerVarType\<close>: two parallel vectors, the interface names and the value slots
  (each slot a \<^verbatim>\<open>shared_ptr<double>\<close> of its own, so no two slots alias and a slot
  is its value). The field \<^verbatim>\<open>id\<close> is \<open>hdl_id\<close> and \<^verbatim>\<open>name\<close> is \<open>hdl_name\<close>.
\<close>

record HandlerVarType =
  hdl_id :: u8
  hdl_name :: string
  interface_name_vec :: "string list"
  value_ptr_vec :: "real list"

text \<open>The calls made on the driver \<^verbatim>\<open>dxl_comm_\<close>, in the order they are made.\<close>

datatype link_call =
    ReadMultiDxlData
  | WriteMultiDxlData
  | ReadItemBuf
  | WriteItemBuf
  | ReadItem u8 string
  | WriteItem u8 string u32
  | DynamixelEnable "u8 list"
  | DynamixelDisable "u8 list"
  | GetDxlTorqueState
  | Reboot u8
  | RWDataReset
  | SetDxlReadItems u8 "string list"
  | SetMultiDxlRead
  | SetDxlWriteItems u8 "string list"
  | SetMultiDxlWrite

datatype log_msg =
    Communication_Fail DxlError
  | Dynamixel_Read_Fail DxlError
  | Dynamixel_Start_Fail DxlError
  | Hardware_Error_States u8 u8 string
  | Cannot_reboot_dynamixel
  | Write_Item_error u8
  | RESET_Failure

text \<open>
  The members of \<^verbatim>\<open>DynamixelHardware\<close> that the control cycle reads or writes,
  three observables: \<open>io_log\<close>, the calls made on the driver so far; \<open>logger\<close>, the
  error and warning messages so far; \<open>clock\<close>, the time in microseconds, which
  \<^verbatim>\<open>usleep\<close> advances; and the arithmetic of the machine on doubles,
  \<open>double_mul_add\<close>, kept in the record so that every function sees it: no function
  assigns it. \<open>dxl_hw_err\<close> is a \<^verbatim>\<open>std::map<uint8_t, uint8_t>\<close> read with
  \<^verbatim>\<open>operator[]\<close>, which gives 0 for a key that is not there. \<open>dxl_torque_state\<close> is a
  \<^verbatim>\<open>std::map<uint8_t, bool>\<close>, kept as the list of its entries in key order.
  \<open>gpio_items\<close> stands for \<^verbatim>\<open>info_.gpios\<close>: for every gpio its ID and its parameters
  other than \<^verbatim>\<open>ID\<close> and \<^verbatim>\<open>type\<close>, already parsed.
\<close>

record hw =
  dxl_status :: DxlStatus
  dxl_torque_status :: DxlTorqueStatus
  dxl_comm_err :: DxlError
  dxl_hw_err :: "u8 \<Rightarrow> u8"
  dxl_torque_state :: "(u8 \<times> bool) list"
  dxl_id :: "u8 list"
  gpio_items :: "(u8 \<times> (string \<times> u32) list) list"
  num_of_joints :: nat
  num_of_transmissions :: nat
  transmission_to_joint_matrix :: "real list list"
  joint_to_transmission_matrix :: "real list list"
  hdl_trans_states :: "HandlerVarType list"
  hdl_trans_commands :: "HandlerVarType list"
  hdl_joint_states :: "HandlerVarType list"
  hdl_joint_commands :: "HandlerVarType list"
  hdl_gpio_sensor_states :: "HandlerVarType list"
  hdl_sensor_states :: "HandlerVarType list"
  io_log :: "link_call list"
  logger :: "log_msg list"
  clock :: nat
  double_mul_add :: "real \<Rightarrow> real \<Rightarrow> real \<Rightarrow> real"

text \<open>
  The driver as an oracle. The \<open>n\<close>-th call on the driver (\<open>n\<close> is the length of
  \<open>io_log\<close> when the call is made) returns \<open>reply_err n call\<close>;
  \<^verbatim>\<open>ReadMultiDxlData\<close> also stores into the registered slots of the transmission state
  handlers: slot \<open>k\<close> of handler \<open>j\<close>, holding \<open>x\<close>, becomes \<open>reply_read n j k x\<close>;
  \<^verbatim>\<open>ReadItem\<close> leaves \<open>reply_item n\<close> in its output argument;
  \<^verbatim>\<open>GetDxlTorqueState\<close> returns the map \<open>reply_torque n\<close>; the call takes
  \<open>latency n\<close> microseconds.
\<close>

record link =
  reply_err :: "nat \<Rightarrow> link_call \<Rightarrow> DxlError"
  reply_read :: "nat \<Rightarrow> nat \<Rightarrow> nat \<Rightarrow> real \<Rightarrow> real"
  reply_item :: "nat \<Rightarrow> u32"
  reply_torque :: "nat \<Rightarrow> (u8 \<times> bool) list"
  latency :: "nat \<Rightarrow> nat"

section \<open>Exceptions, state and loops\<close>

text \<open>
  \<^verbatim>\<open>std::vector::at\<close> throws \<^verbatim>\<open>std::out_of_range\<close>. A member function is a function
  from the state to an outcome and the state it leaves: \<open>Inr\<close> a returned value,
  \<open>Inl\<close> an exception that left the function.
\<close>

datatype exn = out_of_range

type_synonym 'a res = "(exn + 'a) \<times> hw"

definition at_vec :: "'a list \<Rightarrow> nat \<Rightarrow> exn + 'a" where
  "at_vec v i = (if i < length v then Inr (v ! i) else Inl out_of_range)"

definition ebind :: "(hw \<Rightarrow> 'a res) \<Rightarrow> ('a \<Rightarrow> hw \<Rightarrow> 'b res) \<Rightarrow> hw \<Rightarrow> 'b res" where
  "ebind m f s = (case m s of (Inl e, s') \<Rightarrow> (Inl e, s') | (Inr a, s') \<Rightarrow> f a s')"

definition lift_sum :: "(hw \<Rightarrow> exn + 'a) \<Rightarrow> hw \<Rightarrow> 'a res" where
  "lift_sum g s = (g s, s)"

definition modify :: "(hw \<Rightarrow> hw) \<Rightarrow> hw \<Rightarrow> unit res" where
  "modify g s = (Inr (), g s)"

definition ret :: "'a \<Rightarrow> hw \<Rightarrow> 'a res" where
  "ret a s = (Inr a, s)"

text \<open>
  A \<^verbatim>\<open>for\<close> loop over the list of its index values; \<open>a\<close> carries the local
  variables that the body assigns.
\<close>

fun for_loop :: "'i list \<Rightarrow> ('i \<Rightarrow> 'a \<Rightarrow> hw \<Rightarrow> 'a res) \<Rightarrow> 'a \<Rightarrow> hw \<Rightarrow> 'a res" where
  "for_loop [] body a s = (Inr a, s)"
| "for_loop (i # js) body a s =
     (case body i a s of
        (Inl e, s') \<Rightarrow> (Inl e, s')
      | (Inr a', s') \<Rightarrow> for_loop js body a' s')"

text \<open>\<^verbatim>\<open>hdl.at(i).value_ptr_vec.at(k)\<close>, read and assigned.\<close>

definition get_value :: "HandlerVarType list \<Rightarrow> nat \<Rightarrow> nat \<Rightarrow> exn + real" where
  "get_value hdl i k =
     (case at_vec hdl i of Inl e \<Rightarrow> Inl e | Inr h \<Rightarrow> at_vec (value_ptr_vec h) k)"

definition set_value ::
  "HandlerVarType list \<Rightarrow> nat \<Rightarrow> nat \<Rightarrow> real \<Rightarrow> exn + HandlerVarType list" where
  "set_value hdl i k v =
     (case at_vec hdl i of
        Inl e \<Rightarrow> Inl e
      | Inr h \<Rightarrow>
          (case at_vec (value_ptr_vec h) k of
             Inl e \<Rightarrow> Inl e
           | Inr _ \<Rightarrow> Inr (hdl[i := h\<lparr>value_ptr_vec := (value_ptr_vec h)[k := v]\<rparr>])))"

text \<open>A call on the driver: logged, and the clock advanced by the call's latency.\<close>

definition link_do :: "link \<Rightarrow> link_call \<Rightarrow> hw \<Rightarrow> hw" where
  "link_do L c s =
     s\<lparr>io_log := io_log s @ [c], clock := clock s + latency L (length (io_log s))\<rparr>"

definition usleep :: "nat \<Rightarrow> hw \<Rightarrow> hw" where
  "usleep n s = s\<lparr>clock := clock s + n\<rparr>"

text \<open>
  \<open>keeps Q m\<close>: the function \<open>m\<close> leaves a state that satisfies \<open>Q\<close> whenever it
  starts in one, whether it returns or throws. \<open>log_from l s\<close>: the calls made on the
  driver so far start with \<open>l\<close>.
\<close>

definition keeps :: "(hw \<Rightarrow> bool) \<Rightarrow> (hw \<Rightarrow> 'a res) \<Rightarrow> bool" where
  "keeps Q m \<longleftrightarrow> (\<forall>s. Q s \<longrightarrow> Q (snd (m s)))"

definition log_from :: "link_call list \<Rightarrow> hw \<Rightarrow> bool" where
  "log_from l s \<longleftrightarrow> prefix l (io_log s)"

section \<open>Kinematic mapping\<close>

text \<open>
  Modelled from the spec: the slot indices \<^verbatim>\<open>PRESENT_POSITION_INDEX\<close>,
  \<^verbatim>\<open>PRESENT_VELOCITY_INDEX\<close> and \<^verbatim>\<open>PRESENT_ERROT_INDEX\<close> are macros of the header that
  is not in the sources. They are the position, velocity and effort channels, which
  \<^verbatim>\<open>on_init\<close> and \<^verbatim>\<open>InitDxlReadItems\<close> push as the first, second and third slot of
  every joint and transmission state handler.
\<close>

definition PRESENT_POSITION_INDEX :: nat where "PRESENT_POSITION_INDEX = 0"
definition PRESENT_VELOCITY_INDEX :: nat where "PRESENT_VELOCITY_INDEX = 1"
definition PRESENT_ERROT_INDEX :: nat where "PRESENT_ERROT_INDEX = 2"

text \<open>
  The inner loop of \<^verbatim>\<open>CalcTransmissionToJoint\<close> for joint \<open>i\<close> and slot \<open>k\<close>:
  \<^verbatim>\<open>value += transmission_to_joint_matrix_[i][j] * (*hdl_trans_states_.at(j).value_ptr_vec.at(k))\<close>
  on doubles, starting from \<^verbatim>\<open>double value = 0.0\<close>.
  The matrix is a raw array: \<open>!\<close> out of range stands for undefined behaviour.
\<close>

definition T2J_row :: "nat \<Rightarrow> nat \<Rightarrow> hw \<Rightarrow> real res" where
  "T2J_row i k s =
     for_loop [0..<num_of_transmissions s]
       (\<lambda>j value s'.
          case get_value (hdl_trans_states s') j k of
            Inl e \<Rightarrow> (Inl e, s')
          | Inr x \<Rightarrow>
              (Inr (double_mul_add s' value (transmission_to_joint_matrix s' ! i ! j) x), s'))
       0 s"

text \<open>One of the three outer loops of \<^verbatim>\<open>CalcTransmissionToJoint\<close>, for slot \<open>k\<close>.\<close>

definition T2J_channel :: "nat \<Rightarrow> hw \<Rightarrow> unit res" where
  "T2J_channel k s =
     for_loop [0..<num_of_joints s]
       (\<lambda>i _. ebind (T2J_row i k) (\<lambda>value.
          ebind (lift_sum (\<lambda>s'. set_value (hdl_joint_states s') i k value)) (\<lambda>js.
          modify (\<lambda>s'. s'\<lparr>hdl_joint_states := js\<rparr>))))
       () s"

definition CalcTransmissionToJoint :: "hw \<Rightarrow> unit res" where
  "CalcTransmissionToJoint =
     ebind (T2J_channel PRESENT_POSITION_INDEX) (\<lambda>_.
     ebind (T2J_channel PRESENT_VELOCITY_INDEX) (\<lambda>_.
     T2J_channel PRESENT_ERROT_INDEX))"

definition J2T_row :: "nat \<Rightarrow> hw \<Rightarrow> real res" where
  "J2T_row i s =
     for_loop [0..<num_of_joints s]
       (\<lambda>j value s'.
          case get_value (hdl_joint_commands s') j 0 of
            Inl e \<Rightarrow> (Inl e, s')
          | Inr x \<Rightarrow>
              (Inr (double_mul_add s' value (joint_to_transmission_matrix s' ! i ! j) x), s'))
       0 s"

definition CalcJointToTransmission :: "hw \<Rightarrow> unit res" where
  "CalcJointToTransmission s =
     for_loop [0..<num_of_transmissions s]
       (\<lambda>i _. ebind (J2T_row i) (\<lambda>value.
          ebind (lift_sum (\<lambda>s'. set_value (hdl_trans_commands s') i 0 value)) (\<lambda>tc.
          modify (\<lambda>s'. s'\<lparr>hdl_trans_commands := tc\<rparr>))))
       () s"

subsection \<open>The mapping as the spec words it\<close>

text \<open>
  \<open>T2J_sum s i k\<close> is \<open>joint[i] = \<Sum>j. T\<rightarrow>J[i][j] * transmission[j]\<close> on slot \<open>k\<close> of the
  first \<open>num_of_transmissions\<close> transmission state handlers, in doubles: the products
  are added one after the other, in the order of \<open>j\<close>, to a sum that starts at 0.
  \<open>J2T_sum s i\<close> is the same with the other matrix on slot 0 of the first
  \<open>num_of_joints\<close> joint command handlers. \<open>t2j_ok\<close> and \<open>j2t_ok\<close>: the handler vectors
  have the handlers and slots that the loops index and the matrices have the
  dimensions \<^verbatim>\<open>SetMatrix\<close> allocates, so that no \<^verbatim>\<open>at\<close> throws and no raw index is out
  of range. \<open>chan_inv k F hs0 m hs\<close>: \<open>hs\<close> is \<open>hs0\<close> with \<open>F i\<close> stored in slot \<open>k\<close>
  of every handler \<open>i\<close> below \<open>m\<close>.
\<close>

definition T2J_sum :: "hw \<Rightarrow> nat \<Rightarrow> nat \<Rightarrow> real" where
  "T2J_sum s i k =
     foldl (\<lambda>value j. double_mul_add s value (transmission_to_joint_matrix s ! i ! j)
                        (value_ptr_vec (hdl_trans_states s ! j) ! k))
       0 [0..<num_of_transmissions s]"

definition J2T_sum :: "hw \<Rightarrow> nat \<Rightarrow> real" where
  "J2T_sum s i =
     foldl (\<lambda>value j. double_mul_add s value (joint_to_transmission_matrix s ! i ! j)
                        (value_ptr_vec (hdl_joint_commands s ! j) ! 0))
       0 [0..<num_of_joints s]"

definition t2j_ok :: "hw \<Rightarrow> bool" where
  "t2j_ok s \<longleftrightarrow>
     num_of_joints s \<le> length (hdl_joint_states s) \<and>
     num_of_transmissions s \<le> length (hdl_trans_states s) \<and>
     (\<forall>h \<in> set (take (num_of_joints s) (hdl_joint_states s)). 3 \<le> length (value_ptr_vec h)) \<and>
     (\<forall>h \<in> set (take (num_of_transmissions s) (hdl_trans_states s)). 3 \<le> length (value_ptr_vec h)) \<and>
     length (transmission_to_joint_matrix s) = num_of_joints s \<and>
     (\<forall>row \<in> set (transmission_to_joint_matrix s). length row = num_of_transmissions s)"

definition j2t_ok :: "hw \<Rightarrow> bool" where
  "j2t_ok s \<longleftrightarrow>
     num_of_joints s \<le> length (hdl_joint_commands s) \<and>
     num_of_transmissions s \<le> length (hdl_trans_commands s) \<and>
     (\<forall>h \<in> set (take (num_of_joints s) (hdl_joint_commands s)). value_ptr_vec h \<noteq> []) \<and>
     (\<forall>h \<in> set (take (num_of_transmissions s) (hdl_trans_commands s)). value_ptr_vec h \<noteq> []) \<and>
     length (joint_to_transmission_matrix s) = num_of_transmissions s \<and>
     (\<forall>row \<in> set (joint_to_transmission_matrix s). length row = num_of_joints s)"

definition chan_inv ::
  "nat \<Rightarrow> (nat \<Rightarrow> real) \<Rightarrow> HandlerVarType list \<Rightarrow> nat \<Rightarrow> HandlerVarType list \<Rightarrow> bool" where
  "chan_inv k F hs0 m hs \<longleftrightarrow>
     length hs = length hs0 \<and>
     (\<forall>i < length hs0.
        hs ! i = (if i < m then (hs0 ! i)\<lparr>value_ptr_vec := (value_ptr_vec (hs0 ! i))[k := F i]\<rparr>
                  else hs0 ! i))"

section \<open>Fault monitor\<close>

text \<open>
  The assignment \<^verbatim>\<open>dxl_hw_err_[id] = *value_ptr\<close> converts a \<^verbatim>\<open>double\<close> to
  \<^verbatim>\<open>uint8_t\<close>: the fraction is dropped (truncation toward zero). The register holds a
  whole number from 0 to 255; where the truncated value is outside that range the C++
  conversion is undefined.
\<close>

definition to_u8 :: "real \<Rightarrow> u8" where
  "to_u8 x = word_of_int (if 0 \<le> x then \<lfloor>x\<rfloor> else \<lceil>x\<rceil>)"

text \<open>
  The five tests of \<^verbatim>\<open>CheckError\<close> on the stored byte, with the masks as the source
  writes them: \<^verbatim>\<open>0x01\<close>, \<^verbatim>\<open>0x04\<close>, \<^verbatim>\<open>0x08\<close>, \<^verbatim>\<open>0x16\<close>, \<^verbatim>\<open>0x32\<close>.
\<close>

definition error_string_of :: "u8 \<Rightarrow> string" where
  "error_string_of e =
     (if e AND 0x01 \<noteq> 0 then ''input voltage error/ '' else []) @
     (if e AND 0x04 \<noteq> 0 then ''overheating/ '' else []) @
     (if e AND 0x08 \<noteq> 0 then ''motor encoder/ '' else []) @
     (if e AND 0x16 \<noteq> 0 then ''electrical shork/ '' else []) @
     (if e AND 0x32 \<noteq> 0 then ''Overload/ '' else [])"

definition log_msg_add :: "log_msg \<Rightarrow> hw \<Rightarrow> hw" where
  "log_msg_add m s = s\<lparr>logger := logger s @ [m]\<rparr>"

text \<open>
  The body of the two nested loops over the transmission state handlers, for slot
  \<open>j\<close> of handler \<open>i\<close>; \<open>error_state\<close> is the local variable of \<^verbatim>\<open>CheckError\<close>.
\<close>

definition check_hw_slot :: "nat \<Rightarrow> nat \<Rightarrow> DxlError \<Rightarrow> hw \<Rightarrow> DxlError res" where
  "check_hw_slot i j error_state s =
     (case at_vec (hdl_trans_states s) i of
        Inl e \<Rightarrow> (Inl e, s)
      | Inr h \<Rightarrow>
          (case at_vec (interface_name_vec h) j of
             Inl e \<Rightarrow> (Inl e, s)
           | Inr nm \<Rightarrow>
               if nm = ''Hardware Error Status'' then
                 (case at_vec (value_ptr_vec h) j of
                    Inl e \<Rightarrow> (Inl e, s)
                  | Inr x \<Rightarrow>
                      let s1 = s\<lparr>dxl_hw_err := (dxl_hw_err s)(hdl_id h := to_u8 x)\<rparr>;
                          error_string = error_string_of (dxl_hw_err s1 (hdl_id h))
                      in if error_string \<noteq> [] then
                           (Inr DLX_HARDWARE_ERROR,
                            (log_msg_add
                               (Hardware_Error_States (hdl_id h) (dxl_hw_err s1 (hdl_id h))
                                  error_string) s1)
                            \<lparr>dxl_status := HW_ERROR\<rparr>)
                         else (Inr error_state, s1))
               else (Inr error_state, s)))"

definition check_hw_errors :: "DxlError \<Rightarrow> hw \<Rightarrow> DxlError res" where
  "check_hw_errors error_state s =
     for_loop [0..<num_of_transmissions s]
       (\<lambda>i err s'.
          case at_vec (hdl_trans_states s') i of
            Inl e \<Rightarrow> (Inl e, s')
          | Inr h \<Rightarrow> for_loop [0..<length (interface_name_vec h)] (check_hw_slot i) err s')
       error_state s"

text \<open>
  Modelled from the spec: the interface name \<^verbatim>\<open>HW_IF_HARDWARE_STATE\<close> and the numbers
  of the \<^verbatim>\<open>DxlError\<close> codes are declared in headers that are not in the sources. The
  spec gives the hardware-status slot the value 0 for Ok and a nonzero error code
  otherwise; 1 stands for that code.
\<close>

definition HW_IF_HARDWARE_STATE :: string where
  "HW_IF_HARDWARE_STATE = ''hardware_state''"

definition DxlError_value :: "DxlError \<Rightarrow> real" where
  "DxlError_value e = (if e = OK then 0 else 1)"

definition set_hw_state :: "DxlError \<Rightarrow> hw \<Rightarrow> unit res" where
  "set_hw_state error_state s =
     for_loop [0..<num_of_joints s]
       (\<lambda>i _ s'.
          case at_vec (hdl_joint_states s') i of
            Inl e \<Rightarrow> (Inl e, s')
          | Inr h \<Rightarrow>
              for_loop [0..<length (interface_name_vec h)]
                (\<lambda>j _ s''.
                   if interface_name_vec h ! j = HW_IF_HARDWARE_STATE then
                     (case set_value (hdl_joint_states s'') i j (DxlError_value error_state) of
                        Inl e \<Rightarrow> (Inl e, s'')
                      | Inr js \<Rightarrow> (Inr (), s''\<lparr>hdl_joint_states := js\<rparr>))
                   else (Inr (), s''))
                () s')
       () s"

definition CheckError :: "DxlError \<Rightarrow> hw \<Rightarrow> DxlError res" where
  "CheckError dxl_comm_err_arg s =
     (if dxl_comm_err_arg \<noteq> OK then
        (Inr dxl_comm_err_arg,
         (log_msg_add (Communication_Fail dxl_comm_err_arg) s)\<lparr>dxl_status := COMM_ERROR\<rparr>)
      else
        ebind (check_hw_errors OK) (\<lambda>error_state.
        ebind (set_hw_state error_state) (\<lambda>_.
        ret error_state)) s)"

section \<open>Torque coordinator\<close>

text \<open>
  The innermost statement of \<^verbatim>\<open>SyncJointCommandWithStates\<close>, for the state handler
  \<open>si\<close>, the command handler \<open>k\<close> and the state slot \<open>i\<close>.
\<close>

definition sync_slot :: "nat \<Rightarrow> nat \<Rightarrow> nat \<Rightarrow> hw \<Rightarrow> unit res" where
  "sync_slot si k i s =
     (let it_states = hdl_joint_states s ! si; it_commands = hdl_joint_commands s ! k in
      case at_vec (interface_name_vec it_commands) 0 of
        Inl e \<Rightarrow> (Inl e, s)
      | Inr n0 \<Rightarrow>
          (case at_vec (interface_name_vec it_states) i of
             Inl e \<Rightarrow> (Inl e, s)
           | Inr ni \<Rightarrow>
               if n0 = ni then
                 (case at_vec (value_ptr_vec it_states) i of
                    Inl e \<Rightarrow> (Inl e, s)
                  | Inr v \<Rightarrow>
                      (case set_value (hdl_joint_commands s) k 0 v of
                         Inl e \<Rightarrow> (Inl e, s)
                       | Inr jc \<Rightarrow> (Inr (), s\<lparr>hdl_joint_commands := jc\<rparr>)))
               else (Inr (), s)))"

definition SyncJointCommandWithStates :: "hw \<Rightarrow> unit res" where
  "SyncJointCommandWithStates s =
     for_loop [0..<length (hdl_joint_states s)]
       (\<lambda>si _ s1.
          for_loop [0..<length (hdl_joint_commands s1)]
            (\<lambda>k _ s2.
               if hdl_name (hdl_joint_states s2 ! si) = hdl_name (hdl_joint_commands s2 ! k)
               then
                 for_loop [0..<length (interface_name_vec (hdl_joint_states s2 ! si))]
                   (\<lambda>i _. sync_slot si k i) () s2
               else (Inr (), s2))
            () s1)
       () s"

text \<open>
  The loop over the map returned by \<^verbatim>\<open>GetDxlTorqueState\<close>, which returns at the
  first entry that is \<^verbatim>\<open>false\<close>.
\<close>

fun torque_scan :: "(u8 \<times> bool) list \<Rightarrow> DxlTorqueStatus" where
  "torque_scan [] = TORQUE_ENABLED"
| "torque_scan (single_torque_state # rest) =
     (if snd single_torque_state = False then TORQUE_DISABLED else torque_scan rest)"

definition ChangeDxlTorqueState :: "link \<Rightarrow> hw \<Rightarrow> unit res" where
  "ChangeDxlTorqueState L =
     ebind
       (\<lambda>s. if dxl_torque_status s = REQUESTED_TO_ENABLE then
               SyncJointCommandWithStates (link_do L (DynamixelEnable (dxl_id s)) s)
             else if dxl_torque_status s = REQUESTED_TO_DISABLE then
               SyncJointCommandWithStates (link_do L (DynamixelDisable (dxl_id s)) s)
             else (Inr (), s))
       (\<lambda>_. modify
          (\<lambda>s. let m = reply_torque L (length (io_log s));
                    s1 = (link_do L GetDxlTorqueState s)\<lparr>dxl_torque_state := m\<rparr>
                in s1\<lparr>dxl_torque_status := torque_scan m\<rparr>))"

text \<open>
  \<^verbatim>\<open>set_dxl_torque_srv_callback\<close> runs in the service thread. After it has written
  the request it polls \<^verbatim>\<open>dxl_torque_status_\<close> every 50 ms for one second, while the
  control cycle changes it; \<open>polls\<close> is the list of the values it sees, one for each
  poll made within that second.
\<close>

record SetBool_Response =
  success :: bool
  message :: string

fun wait_torque :: "bool \<Rightarrow> DxlTorqueStatus list \<Rightarrow> SetBool_Response" where
  "wait_torque data [] =
     \<lparr>success = False, message = ''Fail to write requeset. main thread is not running.''\<rparr>"
| "wait_torque data (t # ts) =
     (if t = TORQUE_ENABLED then
        (if data then \<lparr>success = True, message = ''Success to enable.''\<rparr>
         else \<lparr>success = False, message = ''Fail to enable.''\<rparr>)
      else if t = TORQUE_DISABLED then
        (if \<not> data then \<lparr>success = True, message = ''Success to disable.''\<rparr>
         else \<lparr>success = False, message = ''Fail to disable.''\<rparr>)
      else wait_torque data ts)"

definition set_dxl_torque_srv_callback ::
  "bool \<Rightarrow> DxlTorqueStatus list \<Rightarrow> hw \<Rightarrow> SetBool_Response \<times> hw" where
  "set_dxl_torque_srv_callback data polls s =
     (if data then
        (if dxl_torque_status s = TORQUE_ENABLED then
           (\<lparr>success = True, message = ''Already enabled.''\<rparr>, s)
         else (wait_torque data polls, s\<lparr>dxl_torque_status := REQUESTED_TO_ENABLE\<rparr>))
      else
        (if dxl_torque_status s = TORQUE_DISABLED then
           (\<lparr>success = True, message = ''Already disabled.''\<rparr>, s)
         else (wait_torque data polls, s\<lparr>dxl_torque_status := REQUESTED_TO_DISABLE\<rparr>)))"

subsection \<open>What the synchronisation keeps and what it establishes\<close>

text \<open>
  \<open>sync_ok\<close>: no \<^verbatim>\<open>at\<close> of \<^verbatim>\<open>SyncJointCommandWithStates\<close> is out of range. \<^verbatim>\<open>start\<close>
  runs the same loops when the hardware is activated, so a running system satisfies it.
  \<open>sync_match js jc si k i\<close>: the loops reach the assignment for state handler
  \<open>si\<close>, command handler \<open>k\<close> and state slot \<open>i\<close>. \<open>sync_frame\<close>: nothing but
  the first value of the command handlers differs. \<open>sync_inv s0 D s\<close>: the first
  value of a command handler is the one it had and no triple of \<open>D\<close> matches it, or
  it is the state value of a triple that matches it.
\<close>

definition cmd_shape :: "HandlerVarType \<Rightarrow> u8 \<times> string \<times> string list \<times> real list" where
  "cmd_shape c = (hdl_id c, hdl_name c, interface_name_vec c, tl (value_ptr_vec c))"

definition sync_match :: "HandlerVarType list \<Rightarrow> HandlerVarType list \<Rightarrow> nat \<Rightarrow> nat \<Rightarrow> nat \<Rightarrow> bool" where
  "sync_match js jc si k i \<longleftrightarrow>
     si < length js \<and> k < length jc \<and> i < length (interface_name_vec (js ! si)) \<and>
     hdl_name (js ! si) = hdl_name (jc ! k) \<and>
     interface_name_vec (jc ! k) ! 0 = interface_name_vec (js ! si) ! i"

definition sync_ok :: "hw \<Rightarrow> bool" where
  "sync_ok s \<longleftrightarrow>
     (\<forall>c \<in> set (hdl_joint_commands s). interface_name_vec c \<noteq> [] \<and> value_ptr_vec c \<noteq> []) \<and>
     (\<forall>st \<in> set (hdl_joint_states s). length (interface_name_vec st) \<le> length (value_ptr_vec st))"

definition sync_frame :: "hw \<Rightarrow> hw \<Rightarrow> bool" where
  "sync_frame s0 s \<longleftrightarrow>
     s = s0\<lparr>hdl_joint_commands := hdl_joint_commands s\<rparr> \<and>
     map cmd_shape (hdl_joint_commands s) = map cmd_shape (hdl_joint_commands s0) \<and>
     (\<forall>c \<in> set (hdl_joint_commands s). value_ptr_vec c \<noteq> [])"

definition sync_inv :: "hw \<Rightarrow> (nat \<times> nat \<times> nat) set \<Rightarrow> hw \<Rightarrow> bool" where
  "sync_inv s0 D s \<longleftrightarrow>
     (\<forall>k < length (hdl_joint_commands s0).
        (value_ptr_vec (hdl_joint_commands s ! k) ! 0 = value_ptr_vec (hdl_joint_commands s0 ! k) ! 0 \<and>
         (\<forall>si i. (si, k, i) \<in> D \<longrightarrow> \<not> sync_match (hdl_joint_states s0) (hdl_joint_commands s0) si k i)) \<or>
        (\<exists>si i. sync_match (hdl_joint_states s0) (hdl_joint_commands s0) si k i \<and>
           value_ptr_vec (hdl_joint_commands s ! k) ! 0 = value_ptr_vec (hdl_joint_states s0 ! si) ! i))"

text \<open>
  The driver calls that \<^verbatim>\<open>ChangeDxlTorqueState\<close> makes before it asks for the torque
  state, and the state it leaves once the synchronisation has left \<open>s1\<close>.
\<close>

definition torque_call :: "hw \<Rightarrow> link_call list" where
  "torque_call s =
     (if dxl_torque_status s = REQUESTED_TO_ENABLE then [DynamixelEnable (dxl_id s)]
      else if dxl_torque_status s = REQUESTED_TO_DISABLE then [DynamixelDisable (dxl_id s)]
      else [])"

definition torque_requested :: "hw \<Rightarrow> bool" where
  "torque_requested s \<longleftrightarrow>
     dxl_torque_status s = REQUESTED_TO_ENABLE \<or> dxl_torque_status s = REQUESTED_TO_DISABLE"

definition after_query :: "link \<Rightarrow> hw \<Rightarrow> hw" where
  "after_query L s1 =
     (link_do L GetDxlTorqueState s1)
       \<lparr>dxl_torque_state := reply_torque L (length (io_log s1)),
        dxl_torque_status := torque_scan (reply_torque L (length (io_log s1)))\<rparr>"

section \<open>Control cycle\<close>

text \<open>\<^verbatim>\<open>dxl_comm_->ReadMultiDxlData()\<close>: the call, its stores and its return value.\<close>

definition read_slots ::
  "(nat \<Rightarrow> nat \<Rightarrow> real \<Rightarrow> real) \<Rightarrow> HandlerVarType list \<Rightarrow> HandlerVarType list" where
  "read_slots f hdl =
     map (\<lambda>(j, h). h\<lparr>value_ptr_vec :=
                        map (\<lambda>(k, x). f j k x) (zip [0..<length (value_ptr_vec h)] (value_ptr_vec h))\<rparr>)
       (zip [0..<length hdl] hdl)"

definition dxl_ReadMultiDxlData :: "link \<Rightarrow> hw \<Rightarrow> DxlError \<times> hw" where
  "dxl_ReadMultiDxlData L s =
     (let n = length (io_log s) in
      (reply_err L n ReadMultiDxlData,
       (link_do L ReadMultiDxlData s)
       \<lparr>hdl_trans_states := read_slots (reply_read L n) (hdl_trans_states s)\<rparr>))"

text \<open>\<^verbatim>\<open>dxl_comm_err_ = CheckError(dxl_comm_->ReadMultiDxlData())\<close>.\<close>

definition read_dxl :: "link \<Rightarrow> hw \<Rightarrow> DxlError res" where
  "read_dxl L s =
     (case dxl_ReadMultiDxlData L s of
        (err, s1) \<Rightarrow>
          ebind (CheckError err) (\<lambda>r.
          ebind (modify (\<lambda>s2. s2\<lparr>dxl_comm_err := r\<rparr>)) (\<lambda>_.
          ret r)) s1)"

definition ReadSensorData :: "link \<Rightarrow> HandlerVarType \<Rightarrow> hw \<Rightarrow> unit res" where
  "ReadSensorData L sensor s =
     for_loop (interface_name_vec sensor)
       (\<lambda>item _ s1.
          let data = reply_item L (length (io_log s1));
              s2 = link_do L (ReadItem (hdl_id sensor) item) s1
          in for_loop [0..<length (hdl_sensor_states s2)]
               (\<lambda>i _ s3.
                  for_loop [0..<length (interface_name_vec (hdl_sensor_states s3 ! i))]
                    (\<lambda>j _ s4.
                       if hdl_name (hdl_sensor_states s4 ! i) = hdl_name sensor \<and>
                          interface_name_vec (hdl_sensor_states s4 ! i) ! j = item
                       then
                         (case set_value (hdl_sensor_states s4) i j (real (unat data)) of
                            Inl e \<Rightarrow> (Inl e, s4)
                          | Inr ss \<Rightarrow> (Inr (), s4\<lparr>hdl_sensor_states := ss\<rparr>))
                       else (Inr (), s4))
                    () s3)
               () s2)
       () s"

text \<open>The part of \<^verbatim>\<open>read\<close> after the bulk read, from \<^verbatim>\<open>CalcTransmissionToJoint\<close> on.\<close>

definition read_rest :: "link \<Rightarrow> hw \<Rightarrow> return_type res" where
  "read_rest L =
     ebind CalcTransmissionToJoint (\<lambda>_.
     ebind (\<lambda>s. for_loop (hdl_gpio_sensor_states s) (\<lambda>sensor _. ReadSensorData L sensor) () s) (\<lambda>_.
     ebind (modify (link_do L ReadItemBuf)) (\<lambda>_.
     ret return_OK)))"

definition read :: "link \<Rightarrow> hw \<Rightarrow> return_type res" where
  "read L s =
     (if dxl_status s = REBOOTING then (Inr return_ERROR, s)
      else if dxl_status s = DXL_OK \<or> dxl_status s = COMM_ERROR then
        ebind (read_dxl L) (\<lambda>r.
          if r \<noteq> OK then
            ebind (modify (log_msg_add (Dynamixel_Read_Fail r))) (\<lambda>_. ret return_ERROR)
          else read_rest L) s
      else if dxl_status s = HW_ERROR then
        ebind (read_dxl L) (\<lambda>r.
          ebind (if r \<noteq> OK then modify (log_msg_add (Dynamixel_Read_Fail r)) else ret ()) (\<lambda>_.
          read_rest L)) s
      else read_rest L s)"

text \<open>\<^verbatim>\<open>write\<close>, named \<open>write_hw\<close> because \<open>write\<close> is a keyword of Isabelle.\<close>

definition write_hw :: "link \<Rightarrow> hw \<Rightarrow> return_type res" where
  "write_hw L s =
     (if dxl_status s = DXL_OK \<or> dxl_status s = HW_ERROR then
        ebind (modify (link_do L WriteItemBuf)) (\<lambda>_.
        ebind (ChangeDxlTorqueState L) (\<lambda>_.
        ebind CalcJointToTransmission (\<lambda>_.
        ebind (modify (link_do L WriteMultiDxlData)) (\<lambda>_.
        ret return_OK)))) s
      else (Inr return_ERROR, s))"

subsection \<open>Configurations on which the cycle throws nothing\<close>

text \<open>
  \<open>sensor_ok\<close>: every sensor state handler has a value slot for each interface name,
  so that \<^verbatim>\<open>ReadSensorData\<close> throws nothing. \<open>sens_frame s0 s\<close>: \<open>s\<close> is \<open>s0\<close> but for the
  sensor values, more driver calls and the clock. \<open>write_ok\<close>: no \<^verbatim>\<open>at\<close> of the write
  path is out of range.
\<close>

definition sens_shape :: "HandlerVarType \<Rightarrow> string \<times> string list \<times> nat" where
  "sens_shape h = (hdl_name h, interface_name_vec h, length (value_ptr_vec h))"

definition sensor_ok :: "hw \<Rightarrow> bool" where
  "sensor_ok s \<longleftrightarrow>
     (\<forall>h \<in> set (hdl_sensor_states s). length (interface_name_vec h) \<le> length (value_ptr_vec h))"

definition sens_frame :: "hw \<Rightarrow> hw \<Rightarrow> bool" where
  "sens_frame s0 s \<longleftrightarrow>
     (\<exists>l. s = s0\<lparr>hdl_sensor_states := hdl_sensor_states s, io_log := io_log s0 @ l,
                  clock := clock s\<rparr>) \<and>
     map sens_shape (hdl_sensor_states s) = map sens_shape (hdl_sensor_states s0)"

definition write_ok :: "hw \<Rightarrow> bool" where
  "write_ok s \<longleftrightarrow> j2t_ok s \<and> (torque_requested s \<longrightarrow> sync_ok s)"

section \<open>Start, stop and communication reset\<close>

text \<open>
  \<^verbatim>\<open>start\<close> repeats the loops of \<^verbatim>\<open>SyncJointCommandWithStates\<close> in line (only the
  informational message differs), so the model calls that function.
\<close>

definition start :: "link \<Rightarrow> hw \<Rightarrow> CallbackReturn res" where
  "start L =
     ebind (read_dxl L) (\<lambda>r.
       if r \<noteq> OK then
         ebind (modify (log_msg_add (Dynamixel_Start_Fail r))) (\<lambda>_. ret ERROR)
       else
         ebind CalcTransmissionToJoint (\<lambda>_.
         ebind SyncJointCommandWithStates (\<lambda>_.
         ebind (modify (usleep 500000)) (\<lambda>_.
         ebind (modify (\<lambda>s. link_do L (DynamixelEnable (dxl_id s)) s)) (\<lambda>_.
         ret SUCCESS)))))"

definition stop :: "link \<Rightarrow> hw \<Rightarrow> CallbackReturn res" where
  "stop L =
     ebind (modify (\<lambda>s. link_do L (DynamixelDisable (dxl_id s)) s)) (\<lambda>_. ret SUCCESS)"

text \<open>The loop \<^verbatim>\<open>for (auto id : dxl_id_)\<close> of \<^verbatim>\<open>CommReset\<close>, with its \<^verbatim>\<open>break\<close>.\<close>

fun reboot_all :: "link \<Rightarrow> u8 list \<Rightarrow> hw \<Rightarrow> bool \<times> hw" where
  "reboot_all L [] s = (True, s)"
| "reboot_all L (i # rest) s =
     (if reply_err L (length (io_log s)) (Reboot i) \<noteq> OK then
        (False, log_msg_add Cannot_reboot_dynamixel (link_do L (Reboot i) s))
      else reboot_all L rest (usleep 200000 (link_do L (Reboot i) s)))"

text \<open>\<^verbatim>\<open>InitDxlItems\<close>: one \<^verbatim>\<open>WriteItem\<close> for every parameter of every gpio, until one fails.\<close>

fun write_items :: "link \<Rightarrow> (u8 \<times> string \<times> u32) list \<Rightarrow> hw \<Rightarrow> bool \<times> hw" where
  "write_items L [] s = (True, s)"
| "write_items L ((i, nm, v) # rest) s =
     (if reply_err L (length (io_log s)) (WriteItem i nm v) \<noteq> OK then
        (False, log_msg_add (Write_Item_error i) (link_do L (WriteItem i nm v) s))
      else write_items L rest (link_do L (WriteItem i nm v) s))"

definition InitDxlItems :: "link \<Rightarrow> hw \<Rightarrow> bool \<times> hw" where
  "InitDxlItems L s =
     write_items L (concat (map (\<lambda>(i, ps). map (\<lambda>(nm, v). (i, nm, v)) ps) (gpio_items s))) s"

text \<open>
  \<^verbatim>\<open>InitDxlReadItems\<close> and \<^verbatim>\<open>InitDxlWriteItems\<close> build the handlers once, under a static
  flag, during \<^verbatim>\<open>on_init\<close>; in a later call only the registration with the driver
  runs, which is what is modelled here.
\<close>

fun set_items ::
  "link \<Rightarrow> (u8 \<Rightarrow> string list \<Rightarrow> link_call) \<Rightarrow> HandlerVarType list \<Rightarrow> hw \<Rightarrow> bool \<times> hw" where
  "set_items L c [] s = (True, s)"
| "set_items L c (it # rest) s =
     (if reply_err L (length (io_log s)) (c (hdl_id it) (interface_name_vec it)) \<noteq> OK then
        (False, link_do L (c (hdl_id it) (interface_name_vec it)) s)
      else set_items L c rest (link_do L (c (hdl_id it) (interface_name_vec it)) s))"

definition link_ok :: "link \<Rightarrow> link_call \<Rightarrow> hw \<Rightarrow> bool \<times> hw" where
  "link_ok L c s = (reply_err L (length (io_log s)) c = OK, link_do L c s)"

definition InitDxlReadItems :: "link \<Rightarrow> hw \<Rightarrow> bool \<times> hw" where
  "InitDxlReadItems L s =
     (case set_items L SetDxlReadItems (hdl_trans_states s) s of
        (False, s1) \<Rightarrow> (False, s1)
      | (True, s1) \<Rightarrow> link_ok L SetMultiDxlRead s1)"

definition InitDxlWriteItems :: "link \<Rightarrow> hw \<Rightarrow> bool \<times> hw" where
  "InitDxlWriteItems L s =
     (case set_items L SetDxlWriteItems (hdl_trans_commands s) s of
        (False, s1) \<Rightarrow> (False, s1)
      | (True, s1) \<Rightarrow> link_ok L SetMultiDxlWrite s1)"

text \<open>
  One pass through the body of the \<^verbatim>\<open>while\<close> loop of \<^verbatim>\<open>CommReset\<close>, up to the point
  where the attempt has failed (\<^verbatim>\<open>continue\<close>) or succeeded.
\<close>

definition reset_attempt :: "link \<Rightarrow> hw \<Rightarrow> bool \<times> hw" where
  "reset_attempt L s =
     (case reboot_all L (dxl_id s) (usleep 200000 s) of
        (False, s1) \<Rightarrow> (False, s1)
      | (True, s1) \<Rightarrow>
          (case InitDxlItems L s1 of
             (False, s2) \<Rightarrow> (False, s2)
           | (True, s2) \<Rightarrow>
               (case InitDxlReadItems L s2 of
                  (False, s3) \<Rightarrow> (False, s3)
                | (True, s3) \<Rightarrow> InitDxlWriteItems L s3)))"

subsection \<open>The clock never runs backwards\<close>

lemma clock_link_do: "clock s \<le> clock (link_do L c s)"
  by (simp add: link_do_def)

lemma clock_reboot_all: "clock s \<le> clock (snd (reboot_all L ids s))"
proof (induction ids arbitrary: s)
  case Nil
  then show ?case by simp
next
  case (Cons i ids)
  have "clock s \<le> clock (usleep 200000 (link_do L (Reboot i) s))"
    by (simp add: usleep_def link_do_def)
  also have "\<dots> \<le> clock (snd (reboot_all L ids (usleep 200000 (link_do L (Reboot i) s))))"
    by (rule Cons.IH)
  finally show ?case by (simp add: log_msg_add_def link_do_def)
qed

lemma clock_write_items: "clock s \<le> clock (snd (write_items L xs s))"
proof (induction xs arbitrary: s)
  case Nil
  then show ?case by simp
next
  case (Cons x xs)
  obtain i nm v where x: "x = (i, nm, v)" by (cases x)
  have "clock s \<le> clock (link_do L (WriteItem i nm v) s)" by (rule clock_link_do)
  also have "\<dots> \<le> clock (snd (write_items L xs (link_do L (WriteItem i nm v) s)))"
    by (rule Cons.IH)
  finally show ?case using x by (simp add: log_msg_add_def link_do_def)
qed

lemma clock_set_items: "clock s \<le> clock (snd (set_items L c xs s))"
proof (induction xs arbitrary: s)
  case Nil
  then show ?case by simp
next
  case (Cons x xs)
  have "clock s \<le> clock (link_do L (c (hdl_id x) (interface_name_vec x)) s)"
    by (rule clock_link_do)
  also have "\<dots> \<le> clock (snd (set_items L c xs (link_do L (c (hdl_id x) (interface_name_vec x)) s)))"
    by (rule Cons.IH)
  finally show ?case by (simp add: link_do_def)
qed

lemma clock_InitDxlItems: "clock s \<le> clock (snd (InitDxlItems L s))"
  by (simp add: InitDxlItems_def clock_write_items)

lemma clock_InitDxlReadItems: "clock s \<le> clock (snd (InitDxlReadItems L s))"
proof (cases "set_items L SetDxlReadItems (hdl_trans_states s) s")
  case (Pair b s1)
  have "clock s \<le> clock s1" using clock_set_items [of s L SetDxlReadItems "hdl_trans_states s"] Pair by simp
  then show ?thesis using Pair by (cases b) (simp_all add: InitDxlReadItems_def link_ok_def link_do_def)
qed

lemma clock_InitDxlWriteItems: "clock s \<le> clock (snd (InitDxlWriteItems L s))"
proof (cases "set_items L SetDxlWriteItems (hdl_trans_commands s) s")
  case (Pair b s1)
  have "clock s \<le> clock s1" using clock_set_items [of s L SetDxlWriteItems "hdl_trans_commands s"] Pair by simp
  then show ?thesis using Pair by (cases b) (simp_all add: InitDxlWriteItems_def link_ok_def link_do_def)
qed

lemma clock_reset_attempt: "clock s + 200000 \<le> clock (snd (reset_attempt L s))"
proof -
  obtain b1 s1 where r1: "reboot_all L (dxl_id s) (usleep 200000 s) = (b1, s1)" by force
  obtain b2 s2 where r2: "InitDxlItems L s1 = (b2, s2)" by force
  obtain b3 s3 where r3: "InitDxlReadItems L s2 = (b3, s3)" by force
  obtain b4 s4 where r4: "InitDxlWriteItems L s3 = (b4, s4)" by force
  have c1: "clock s + 200000 \<le> clock s1"
    using clock_reboot_all [of "usleep 200000 s" L "dxl_id s"] r1 by (simp add: usleep_def)
  have c2: "clock s1 \<le> clock s2" using clock_InitDxlItems [of s1 L] r2 by simp
  have c3: "clock s2 \<le> clock s3" using clock_InitDxlReadItems [of s2 L] r3 by simp
  have c4: "clock s3 \<le> clock s4" using clock_InitDxlWriteItems [of s3 L] r4 by simp
  show ?thesis
    using r1 r2 r3 r4 c1 c2 c3 c4
    by (cases b1; cases b2; cases b3; simp add: reset_attempt_def usleep_def)
qed

text \<open>
  The \<^verbatim>\<open>while\<close> loop of \<^verbatim>\<open>CommReset\<close>: it runs while less than 3 seconds have
  passed since \<open>start_time\<close>. Every pass sleeps 200 ms first, so the loop ends.
  After the loop the function sleeps one second, calls \<^verbatim>\<open>start\<close> and drops what it
  returns; only the pass that succeeded assigns \<^verbatim>\<open>dxl_status_ = DXL_OK\<close>.
\<close>

function CommReset_loop :: "link \<Rightarrow> nat \<Rightarrow> hw \<Rightarrow> bool res" where
  "CommReset_loop L start_time s =
     (if int (clock s) - int start_time < 3000000 then
        (case reset_attempt L s of
           (False, s1) \<Rightarrow> CommReset_loop L start_time s1
         | (True, s1) \<Rightarrow>
             ebind (start L) (\<lambda>_.
             ebind (modify (\<lambda>s2. s2\<lparr>dxl_status := DXL_OK\<rparr>)) (\<lambda>_.
             ret True)) (usleep 1000000 s1))
      else
        ebind (start L) (\<lambda>_. ret False) (usleep 1000000 (log_msg_add RESET_Failure s)))"
  by pat_completeness auto
termination
  apply (relation "measure (\<lambda>(L, start_time, s). nat (3000000 + int start_time - int (clock s)))")
   apply simp
  subgoal premises p for L start_time s x y
    using p(2) [symmetric] p(1) clock_reset_attempt [of s L] by simp
  done

definition CommReset :: "link \<Rightarrow> hw \<Rightarrow> bool res" where
  "CommReset L s =
     ebind (stop L) (\<lambda>_ s1.
       let s2 = link_do L RWDataReset s1 in CommReset_loop L (clock s2) s2)
     (s\<lparr>dxl_status := REBOOTING\<rparr>)"

section \<open>A small configuration\<close>

text \<open>
  One joint driven by one actuator with ID 5, and a driver that answers \<^verbatim>\<open>OK\<close> to
  every call, leaves the slots as they are and reports no torque entry. The values
  are small whole numbers, on which \<^verbatim>\<open>value += a * b\<close> on doubles is exact. The witnesses and the counterexamples below run the functions on
  variations of it.
\<close>

definition link_quiet :: link where
  "link_quiet = \<lparr>reply_err = (\<lambda>n c. OK), reply_read = (\<lambda>n j k x. x), reply_item = (\<lambda>n. 0),
     reply_torque = (\<lambda>n. []), latency = (\<lambda>n. 0)\<rparr>"

definition hw_example :: hw where
  "hw_example = \<lparr>dxl_status = DXL_OK, dxl_torque_status = TORQUE_ENABLED, dxl_comm_err = OK,
     dxl_hw_err = (\<lambda>i. 0), dxl_torque_state = [], dxl_id = [5], gpio_items = [],
     num_of_joints = 1, num_of_transmissions = 1,
     transmission_to_joint_matrix = [[2]], joint_to_transmission_matrix = [[3]],
     hdl_trans_states = [\<lparr>hdl_id = 5, hdl_name = ''dxl1'',
        interface_name_vec = [''Present Position'', ''Present Velocity'', ''Present Current'',
          ''Hardware Error Status''],
        value_ptr_vec = [1, 2, 3, 0]\<rparr>],
     hdl_trans_commands = [\<lparr>hdl_id = 5, hdl_name = ''dxl1'',
        interface_name_vec = [''Goal Position''], value_ptr_vec = [0]\<rparr>],
     hdl_joint_states = [\<lparr>hdl_id = 0, hdl_name = ''joint1'',
        interface_name_vec = [''position'', ''velocity'', ''effort''], value_ptr_vec = [1, 2, 3]\<rparr>],
     hdl_joint_commands = [\<lparr>hdl_id = 0, hdl_name = ''joint1'',
        interface_name_vec = [''position'', ''velocity''], value_ptr_vec = [10, 20]\<rparr>],
     hdl_gpio_sensor_states = [], hdl_sensor_states = [],
     io_log = [], logger = [], clock = 0,
     double_mul_add = (\<lambda>value a b. value + a * b)\<rparr>"


text \<open>
  Two joints and two actuators with the IDs 5 and 6, each actuator with the command
  interfaces \<^verbatim>\<open>Goal Position\<close> and \<^verbatim>\<open>Goal Velocity\<close>: \<^verbatim>\<open>InitDxlWriteItems\<close> makes
  four transmission command handlers, in this order. The joint to transmission matrix
  is the identity; the position commands of the joints are 10 and 20.
\<close>

definition hw_two_actuators :: hw where
  "hw_two_actuators = hw_example\<lparr>dxl_id := [5, 6], num_of_joints := 2, num_of_transmissions := 2,
     joint_to_transmission_matrix := [[1, 0], [0, 1]],
     hdl_trans_commands :=
      [\<lparr>hdl_id = 5, hdl_name = ''dxl1'', interface_name_vec = [''Goal Position''], value_ptr_vec = [0]\<rparr>,
       \<lparr>hdl_id = 5, hdl_name = ''dxl1'', interface_name_vec = [''Goal Velocity''], value_ptr_vec = [0]\<rparr>,
       \<lparr>hdl_id = 6, hdl_name = ''dxl2'', interface_name_vec = [''Goal Position''], value_ptr_vec = [0]\<rparr>,
       \<lparr>hdl_id = 6, hdl_name = ''dxl2'', interface_name_vec = [''Goal Velocity''], value_ptr_vec = [0]\<rparr>],
     hdl_joint_commands :=
      [\<lparr>hdl_id = 0, hdl_name = ''joint1'',
         interface_name_vec = [''position'', ''velocity''], value_ptr_vec = [10, 0]\<rparr>,
       \<lparr>hdl_id = 0, hdl_name = ''joint2'',
         interface_name_vec = [''position'', ''velocity''], value_ptr_vec = [20, 0]\<rparr>]\<rparr>"

text \<open>
  The configuration after a failed bulk read, with the torque off: the status is
  \<^verbatim>\<open>COMM_ERROR\<close>, which \<^verbatim>\<open>CheckError\<close> sets and only \<^verbatim>\<open>start\<close> and a successful
  \<^verbatim>\<open>CommReset\<close> set back to \<^verbatim>\<open>DXL_OK\<close>.
\<close>

definition hw_comm_error :: hw where
  "hw_comm_error = hw_example\<lparr>dxl_status := COMM_ERROR, dxl_torque_status := TORQUE_DISABLED\<rparr>"

text \<open>
  The actuator reports the byte 2 (bit 1 alone), and the byte 4 (bit 2 alone,
  overheating), in its \<^verbatim>\<open>Hardware Error Status\<close> register. Two drivers for the reset:
  one on which every \<^verbatim>\<open>Reboot\<close> fails, one on which every \<^verbatim>\<open>SetMultiDxlWrite\<close>
  fails; both answer \<^verbatim>\<open>OK\<close> to every other call, the bulk read included.
\<close>

definition hw_bit1 :: hw where
  "hw_bit1 = hw_example\<lparr>hdl_trans_states :=
      [\<lparr>hdl_id = 5, hdl_name = ''dxl1'',
        interface_name_vec = [''Present Position'', ''Present Velocity'', ''Present Current'',
          ''Hardware Error Status''],
        value_ptr_vec = [1, 2, 3, 2]\<rparr>]\<rparr>"

definition hw_overheating :: hw where
  "hw_overheating = hw_example\<lparr>hdl_trans_states :=
      [\<lparr>hdl_id = 5, hdl_name = ''dxl1'',
        interface_name_vec = [''Present Position'', ''Present Velocity'', ''Present Current'',
          ''Hardware Error Status''],
        value_ptr_vec = [1, 2, 3, 4]\<rparr>]\<rparr>"

definition link_no_reboot :: link where
  "link_no_reboot =
     link_quiet\<lparr>reply_err := (\<lambda>n c. case c of Reboot i \<Rightarrow> TRANSPORT_FAIL 0 | _ \<Rightarrow> OK)\<rparr>"

definition link_no_write_setup :: link where
  "link_no_write_setup =
     link_quiet\<lparr>reply_err := (\<lambda>n c. case c of SetMultiDxlWrite \<Rightarrow> TRANSPORT_FAIL 0 | _ \<Rightarrow> OK)\<rparr>"

section \<open>Loop rules\<close>

lemmas monad_defs = ebind_def modify_def ret_def lift_sum_def
lemmas step_defs = link_do_def usleep_def log_msg_add_def at_vec_def get_value_def set_value_def

lemmas eval_defs =
  ChangeDxlTorqueState_def SyncJointCommandWithStates_def sync_slot_def
  CalcTransmissionToJoint_def T2J_channel_def T2J_row_def CalcJointToTransmission_def J2T_row_def
  PRESENT_POSITION_INDEX_def PRESENT_VELOCITY_INDEX_def PRESENT_ERROT_INDEX_def
  CheckError_def check_hw_errors_def check_hw_slot_def set_hw_state_def error_string_of_def
  to_u8_def HW_IF_HARDWARE_STATE_def DxlError_value_def
  read_def read_rest_def read_dxl_def dxl_ReadMultiDxlData_def read_slots_def ReadSensorData_def
  write_hw_def start_def stop_def
  monad_defs step_defs Let_def



lemma for_loop_append:
  "for_loop (xs @ ys) body a s =
     (case for_loop xs body a s of
        (Inl e, s') \<Rightarrow> (Inl e, s')
      | (Inr a', s') \<Rightarrow> for_loop ys body a' s')"
  by (induction xs arbitrary: a s) (auto split: prod.splits sum.splits)

lemma for_upt_rule_from:
  assumes "P m a s" and "m \<le> n"
    and "\<And>i a s. m \<le> i \<Longrightarrow> i < n \<Longrightarrow> P i a s \<Longrightarrow>
           \<exists>a' s'. body i a s = (Inr a', s') \<and> P (Suc i) a' s'"
  shows "\<exists>a' s'. for_loop [m..<n] body a s = (Inr a', s') \<and> P n a' s'"
  using assms
proof (induction "n - m" arbitrary: m a s)
  case 0
  then show ?case by simp
next
  case (Suc d)
  then have lt: "m < n" by linarith
  from Suc.prems(3) [OF le_refl lt Suc.prems(1)]
  obtain a1 s1 where b: "body m a s = (Inr a1, s1)" and p: "P (Suc m) a1 s1" by blast
  have "\<exists>a' s'. for_loop [Suc m..<n] body a1 s1 = (Inr a', s') \<and> P n a' s'"
  proof (rule Suc.hyps(1))
    show "d = n - Suc m" using Suc.hyps(2) by linarith
    show "P (Suc m) a1 s1" by (rule p)
    show "Suc m \<le> n" using lt by simp
    show "\<And>i a s. Suc m \<le> i \<Longrightarrow> i < n \<Longrightarrow> P i a s \<Longrightarrow>
           \<exists>a' s'. body i a s = (Inr a', s') \<and> P (Suc i) a' s'"
      using Suc.prems(3) by simp
  qed
  then show ?case using b lt by (simp add: upt_conv_Cons)
qed

lemma for_upt_rule:
  assumes "P 0 a s"
    and "\<And>i a s. i < n \<Longrightarrow> P i a s \<Longrightarrow>
           \<exists>a' s'. body i a s = (Inr a', s') \<and> P (Suc i) a' s'"
  shows "\<exists>a' s'. for_loop [0..<n] body a s = (Inr a', s') \<and> P n a' s'"
  using for_upt_rule_from [where P = P and m = 0 and n = n and body = body and a = a and s = s]
    assms by simp

lemma for_loop_state_inv:
  assumes "Q s" and "\<And>i a s. i \<in> set xs \<Longrightarrow> Q s \<Longrightarrow> Q (snd (body i a s))"
  shows "Q (snd (for_loop xs body a s))"
  using assms
proof (induction xs arbitrary: a s)
  case Nil
  then show ?case by simp
next
  case (Cons x xs)
  have q: "Q (snd (body x a s))" using Cons.prems by simp
  show ?case
  proof (cases "body x a s")
    case (Pair r s1)
    then have q1: "Q s1" using q by simp
    show ?thesis
    proof (cases r)
      case (Inl e)
      then show ?thesis using Pair q1 by simp
    next
      case (Inr a1)
      have "Q (snd (for_loop xs body a1 s1))"
        using Cons.IH [OF q1] Cons.prems(2) by simp
      then show ?thesis using Pair Inr by simp
    qed
  qed
qed

section \<open>Synchronisation of the joint commands\<close>

lemma map_eq_nth: "map f xs = map f ys \<Longrightarrow> k < length xs \<Longrightarrow> f (xs ! k) = f (ys ! k)"
  by (metis length_map nth_map)

lemma sync_frame_refl:
  "\<forall>c \<in> set (hdl_joint_commands s). value_ptr_vec c \<noteq> [] \<Longrightarrow> sync_frame s s"
  by (simp add: sync_frame_def)

lemma sync_frame_facts:
  assumes "sync_frame s0 s"
  shows "hdl_joint_states s = hdl_joint_states s0"
    and "length (hdl_joint_commands s) = length (hdl_joint_commands s0)"
    and "k < length (hdl_joint_commands s0) \<Longrightarrow>
           hdl_name (hdl_joint_commands s ! k) = hdl_name (hdl_joint_commands s0 ! k)"
    and "k < length (hdl_joint_commands s0) \<Longrightarrow>
           interface_name_vec (hdl_joint_commands s ! k) = interface_name_vec (hdl_joint_commands s0 ! k)"
    and "k < length (hdl_joint_commands s0) \<Longrightarrow> value_ptr_vec (hdl_joint_commands s ! k) \<noteq> []"
    and "io_log s = io_log s0"
proof -
  have eq: "s = s0\<lparr>hdl_joint_commands := hdl_joint_commands s\<rparr>"
    and shp: "map cmd_shape (hdl_joint_commands s) = map cmd_shape (hdl_joint_commands s0)"
    and ne: "\<forall>c \<in> set (hdl_joint_commands s). value_ptr_vec c \<noteq> []"
    using assms by (simp_all add: sync_frame_def)
  show "hdl_joint_states s = hdl_joint_states s0"
    by (subst eq) simp
  show "io_log s = io_log s0"
    by (subst eq) simp
  show len: "length (hdl_joint_commands s) = length (hdl_joint_commands s0)"
    using shp by (rule map_eq_imp_length_eq)
  {
    assume k: "k < length (hdl_joint_commands s0)"
    then have "cmd_shape (hdl_joint_commands s ! k) = cmd_shape (hdl_joint_commands s0 ! k)"
      using map_eq_nth [OF shp] len by simp
    then show "hdl_name (hdl_joint_commands s ! k) = hdl_name (hdl_joint_commands s0 ! k)"
      and "interface_name_vec (hdl_joint_commands s ! k) = interface_name_vec (hdl_joint_commands s0 ! k)"
      by (simp_all add: cmd_shape_def)
    show "value_ptr_vec (hdl_joint_commands s ! k) \<noteq> []"
      using ne k len by simp
  }
qed

text \<open>One assignment of the synchronisation.\<close>

lemma sync_slot_step:
  assumes ok: "sync_ok s0" and fr: "sync_frame s0 s" and inv: "sync_inv s0 D s"
    and si: "si < length (hdl_joint_states s0)" and k: "k < length (hdl_joint_commands s0)"
    and i: "i < length (interface_name_vec (hdl_joint_states s0 ! si))"
    and nm: "hdl_name (hdl_joint_states s0 ! si) = hdl_name (hdl_joint_commands s0 ! k)"
  shows "\<exists>s'. sync_slot si k i s = (Inr (), s') \<and> sync_frame s0 s' \<and> sync_inv s0 (insert (si, k, i) D) s'"
proof -
  let ?js = "hdl_joint_states s0" and ?jo = "hdl_joint_commands s0" and ?jc = "hdl_joint_commands s"
  let ?st = "?js ! si" and ?c = "?jc ! k"
  note f = sync_frame_facts [OF fr]
  have st_in: "?st \<in> set ?js" using si by simp
  have c0_in: "?jo ! k \<in> set ?jo" using k by simp
  have names_c: "interface_name_vec ?c = interface_name_vec (?jo ! k)" using f(4) k by simp
  have ne_names: "interface_name_vec ?c \<noteq> []" using ok c0_in names_c by (simp add: sync_ok_def)
  have ne_vals: "value_ptr_vec ?c \<noteq> []" using f(5) k by simp
  have i_val: "i < length (value_ptr_vec ?st)" using ok st_in i by (fastforce simp: sync_ok_def)
  have klen: "k < length ?jc" using k f(2) by simp
  show ?thesis
  proof (cases "interface_name_vec ?c ! 0 = interface_name_vec ?st ! i")
    case False
    then have res: "sync_slot si k i s = (Inr (), s)"
      using ne_names i f(1) by (simp add: sync_slot_def at_vec_def Let_def)
    have nomatch: "\<not> sync_match ?js ?jo si k i"
      using False names_c by (simp add: sync_match_def)
    have "sync_inv s0 (insert (si, k, i) D) s"
      using inv nomatch unfolding sync_inv_def by (metis insert_iff prod.inject)
    then show ?thesis using res fr by simp
  next
    case True
    let ?v = "value_ptr_vec ?st ! i"
    let ?jc' = "?jc[k := ?c\<lparr>value_ptr_vec := (value_ptr_vec ?c)[0 := ?v]\<rparr>]"
    let ?s' = "s\<lparr>hdl_joint_commands := ?jc'\<rparr>"
    have res: "sync_slot si k i s = (Inr (), ?s')"
      using True ne_names ne_vals i i_val klen f(1)
      by (simp add: sync_slot_def at_vec_def set_value_def Let_def)
    have m: "sync_match ?js ?jo si k i"
      using True names_c si k i nm by (simp add: sync_match_def)
    have eq: "s = s0\<lparr>hdl_joint_commands := ?jc\<rparr>" using fr by (simp add: sync_frame_def)
    have eq': "?s' = s0\<lparr>hdl_joint_commands := ?jc'\<rparr>" by (subst eq) simp
    have shp: "map cmd_shape ?jc' = map cmd_shape ?jo"
    proof -
      have "cmd_shape (?c\<lparr>value_ptr_vec := (value_ptr_vec ?c)[0 := ?v]\<rparr>) = cmd_shape ?c"
        using ne_vals by (cases "value_ptr_vec ?c") (simp_all add: cmd_shape_def)
      moreover have "(map cmd_shape ?jc)[k := cmd_shape ?c] = map cmd_shape ?jc"
        using klen by (metis list_update_id nth_map)
      ultimately have "map cmd_shape ?jc' = map cmd_shape ?jc"
        by (simp add: map_update)
      then show ?thesis using fr by (simp add: sync_frame_def)
    qed
    have ne': "\<forall>c \<in> set ?jc'. value_ptr_vec c \<noteq> []"
    proof
      fix c assume "c \<in> set ?jc'"
      then have "c \<in> insert (?c\<lparr>value_ptr_vec := (value_ptr_vec ?c)[0 := ?v]\<rparr>) (set ?jc)"
        using set_update_subset_insert by fastforce
      then show "value_ptr_vec c \<noteq> []" using ne_vals fr by (auto simp: sync_frame_def)
    qed
    have fr': "sync_frame s0 ?s'"
      unfolding sync_frame_def using eq' shp ne' by simp
    have inv': "sync_inv s0 (insert (si, k, i) D) ?s'"
      unfolding sync_inv_def
    proof (intro allI impI)
      fix k' assume k': "k' < length ?jo"
      show "(value_ptr_vec (hdl_joint_commands ?s' ! k') ! 0 = value_ptr_vec (?jo ! k') ! 0 \<and>
             (\<forall>si' i'. (si', k', i') \<in> insert (si, k, i) D \<longrightarrow> \<not> sync_match ?js ?jo si' k' i')) \<or>
            (\<exists>si' i'. sync_match ?js ?jo si' k' i' \<and>
               value_ptr_vec (hdl_joint_commands ?s' ! k') ! 0 = value_ptr_vec (?js ! si') ! i')"
      proof (cases "k' = k")
        case True
        have "value_ptr_vec (hdl_joint_commands ?s' ! k) ! 0 = ?v"
          using klen ne_vals by simp
        then show ?thesis using m True f(1) by auto
      next
        case False
        then have same: "hdl_joint_commands ?s' ! k' = ?jc ! k'" by simp
        from inv k' have
          "(value_ptr_vec (?jc ! k') ! 0 = value_ptr_vec (?jo ! k') ! 0 \<and>
             (\<forall>si' i'. (si', k', i') \<in> D \<longrightarrow> \<not> sync_match ?js ?jo si' k' i')) \<or>
            (\<exists>si' i'. sync_match ?js ?jo si' k' i' \<and>
               value_ptr_vec (?jc ! k') ! 0 = value_ptr_vec (?js ! si') ! i')"
          unfolding sync_inv_def by blast
        then show ?thesis using same False by auto
      qed
    qed
    show ?thesis using res fr' inv' by blast
  qed
qed


lemma sync_inv_weaken:
  assumes "sync_inv s0 D s"
    and "\<And>si k i. (si, k, i) \<in> D' \<Longrightarrow>
           (si, k, i) \<in> D \<or> \<not> sync_match (hdl_joint_states s0) (hdl_joint_commands s0) si k i"
  shows "sync_inv s0 D' s"
  using assms unfolding sync_inv_def by blast

lemma sync_inner_loop:
  assumes ok: "sync_ok s0" and fr: "sync_frame s0 s" and inv: "sync_inv s0 D s"
    and si: "si < length (hdl_joint_states s0)" and k: "k < length (hdl_joint_commands s0)"
    and nm: "hdl_name (hdl_joint_states s0 ! si) = hdl_name (hdl_joint_commands s0 ! k)"
  shows "\<exists>s'. for_loop [0..<length (interface_name_vec (hdl_joint_states s0 ! si))]
                 (\<lambda>i _. sync_slot si k i) () s = (Inr (), s') \<and>
              sync_frame s0 s' \<and> sync_inv s0 (D \<union> {(si, k, i) | i. True}) s'"
proof -
  let ?n = "length (interface_name_vec (hdl_joint_states s0 ! si))"
  let ?P = "\<lambda>i (a :: unit) s'. sync_frame s0 s' \<and> sync_inv s0 (D \<union> {(si, k, i') | i'. i' < i}) s'"
  have "\<exists>a' s'. for_loop [0..<?n] (\<lambda>i _. sync_slot si k i) () s = (Inr a', s') \<and> ?P ?n a' s'"
  proof (rule for_upt_rule [where P = ?P])
    show "?P 0 () s" using fr inv by simp
  next
    fix i a s1
    assume i: "i < ?n" and p: "?P i a s1"
    from sync_slot_step [OF ok _ _ si k i nm, of s1 "D \<union> {(si, k, i') | i'. i' < i}"] p
    obtain s' where r: "sync_slot si k i s1 = (Inr (), s')" and f': "sync_frame s0 s'"
      and i': "sync_inv s0 (insert (si, k, i) (D \<union> {(si, k, i') | i'. i' < i})) s'"
      by blast
    have "sync_inv s0 (D \<union> {(si, k, i') | i'. i' < Suc i}) s'"
      by (rule sync_inv_weaken [OF i']) (auto simp: less_Suc_eq)
    then show "\<exists>a' s'. sync_slot si k i s1 = (Inr a', s') \<and> ?P (Suc i) a' s'"
      using r f' by blast
  qed
  then obtain s' where r: "for_loop [0..<?n] (\<lambda>i _. sync_slot si k i) () s = (Inr (), s')"
    and f': "sync_frame s0 s'" and i': "sync_inv s0 (D \<union> {(si, k, i') | i'. i' < ?n}) s'"
    by auto
  have "sync_inv s0 (D \<union> {(si, k, i) | i. True}) s'"
    by (rule sync_inv_weaken [OF i']) (auto simp: sync_match_def)
  then show ?thesis using r f' by blast
qed

lemma sync_middle_loop:
  assumes ok: "sync_ok s0" and fr: "sync_frame s0 s" and inv: "sync_inv s0 D s"
    and si: "si < length (hdl_joint_states s0)"
  shows "\<exists>s'. for_loop [0..<length (hdl_joint_commands s)]
                 (\<lambda>k _ s2.
                    if hdl_name (hdl_joint_states s2 ! si) = hdl_name (hdl_joint_commands s2 ! k)
                    then for_loop [0..<length (interface_name_vec (hdl_joint_states s2 ! si))]
                           (\<lambda>i _. sync_slot si k i) () s2
                    else (Inr (), s2)) () s = (Inr (), s') \<and>
              sync_frame s0 s' \<and> sync_inv s0 (D \<union> {(si, k, i) | k i. True}) s'"
proof -
  let ?n = "length (hdl_joint_commands s0)"
  let ?body = "\<lambda>k (_ :: unit) s2.
                    if hdl_name (hdl_joint_states s2 ! si) = hdl_name (hdl_joint_commands s2 ! k)
                    then for_loop [0..<length (interface_name_vec (hdl_joint_states s2 ! si))]
                           (\<lambda>i _. sync_slot si k i) () s2
                    else (Inr (), s2)"
  let ?P = "\<lambda>k (a :: unit) s'. sync_frame s0 s' \<and> sync_inv s0 (D \<union> {(si, k', i) | k' i. k' < k}) s'"
  have len: "length (hdl_joint_commands s) = ?n" using sync_frame_facts(2) [OF fr] .
  have "\<exists>a' s'. for_loop [0..<?n] ?body () s = (Inr a', s') \<and> ?P ?n a' s'"
  proof (rule for_upt_rule [where P = ?P])
    show "?P 0 () s" using fr inv by simp
  next
    fix k a s1
    assume k: "k < ?n" and p: "?P k a s1"
    then have f1: "sync_frame s0 s1" and i1: "sync_inv s0 (D \<union> {(si, k', i) | k' i. k' < k}) s1"
      by simp_all
    note f = sync_frame_facts [OF f1]
    show "\<exists>a' s'. ?body k a s1 = (Inr a', s') \<and> ?P (Suc k) a' s'"
    proof (cases "hdl_name (hdl_joint_states s0 ! si) = hdl_name (hdl_joint_commands s0 ! k)")
      case True
      from sync_inner_loop [OF ok f1 i1 si k True]
      obtain s' where r: "for_loop [0..<length (interface_name_vec (hdl_joint_states s0 ! si))]
                 (\<lambda>i _. sync_slot si k i) () s1 = (Inr (), s')"
        and f': "sync_frame s0 s'"
        and i': "sync_inv s0 ((D \<union> {(si, k', i) | k' i. k' < k}) \<union> {(si, k, i) | i. True}) s'"
        by blast
      have "sync_inv s0 (D \<union> {(si, k', i) | k' i. k' < Suc k}) s'"
        by (rule sync_inv_weaken [OF i']) (auto simp: less_Suc_eq)
      moreover have "?body k a s1 = (Inr (), s')"
        using True r f(1) f(3) [OF k] by simp
      ultimately show ?thesis using f' by blast
    next
      case False
      have "sync_inv s0 (D \<union> {(si, k', i) | k' i. k' < Suc k}) s1"
        by (rule sync_inv_weaken [OF i1]) (use False in \<open>auto simp: less_Suc_eq sync_match_def\<close>)
      moreover have "?body k a s1 = (Inr (), s1)"
        using False f(1) f(3) [OF k] by simp
      ultimately show ?thesis using f1 by blast
    qed
  qed
  then obtain s' where r: "for_loop [0..<?n] ?body () s = (Inr (), s')"
    and f': "sync_frame s0 s'" and i': "sync_inv s0 (D \<union> {(si, k', i) | k' i. k' < ?n}) s'"
    by auto
  have "sync_inv s0 (D \<union> {(si, k, i) | k i. True}) s'"
    by (rule sync_inv_weaken [OF i']) (auto simp: sync_match_def)
  then show ?thesis using r f' len by auto
qed

lemma SyncJointCommandWithStates_inv:
  assumes ok: "sync_ok s0"
  shows "\<exists>s'. SyncJointCommandWithStates s0 = (Inr (), s') \<and> sync_frame s0 s' \<and> sync_inv s0 UNIV s'"
proof -
  let ?n = "length (hdl_joint_states s0)"
  let ?body = "\<lambda>si (_ :: unit) s1.
          for_loop [0..<length (hdl_joint_commands s1)]
            (\<lambda>k _ s2.
               if hdl_name (hdl_joint_states s2 ! si) = hdl_name (hdl_joint_commands s2 ! k)
               then
                 for_loop [0..<length (interface_name_vec (hdl_joint_states s2 ! si))]
                   (\<lambda>i _. sync_slot si k i) () s2
               else (Inr (), s2))
            () s1"
  let ?P = "\<lambda>si (a :: unit) s'. sync_frame s0 s' \<and> sync_inv s0 {(si', k, i) | si' k i. si' < si} s'"
  have "\<exists>a' s'. for_loop [0..<?n] ?body () s0 = (Inr a', s') \<and> ?P ?n a' s'"
  proof (rule for_upt_rule [where P = ?P])
    have "sync_frame s0 s0" using ok by (intro sync_frame_refl) (simp add: sync_ok_def)
    moreover have "sync_inv s0 {(si', k, i) | si' k i. si' < 0} s0" by (simp add: sync_inv_def)
    ultimately show "?P 0 () s0" by simp
  next
    fix si a s1
    assume si: "si < ?n" and p: "?P si a s1"
    then have f1: "sync_frame s0 s1" and i1: "sync_inv s0 {(si', k, i) | si' k i. si' < si} s1"
      by simp_all
    from sync_middle_loop [OF ok f1 i1 si]
    obtain s' where r: "?body si a s1 = (Inr (), s')" and f': "sync_frame s0 s'"
      and i': "sync_inv s0 ({(si', k, i) | si' k i. si' < si} \<union> {(si, k, i) | k i. True}) s'"
      by blast
    have "sync_inv s0 {(si', k, i) | si' k i. si' < Suc si} s'"
      by (rule sync_inv_weaken [OF i']) (auto simp: less_Suc_eq)
    then show "\<exists>a' s'. ?body si a s1 = (Inr a', s') \<and> ?P (Suc si) a' s'"
      using r f' by blast
  qed
  then obtain s' where r: "for_loop [0..<?n] ?body () s0 = (Inr (), s')"
    and f': "sync_frame s0 s'" and i': "sync_inv s0 {(si', k, i) | si' k i. si' < ?n} s'"
    by auto
  have "sync_inv s0 UNIV s'"
    by (rule sync_inv_weaken [OF i']) (auto simp: sync_match_def)
  then show ?thesis using r f' by (auto simp: SyncJointCommandWithStates_def)
qed

section \<open>Torque state machine\<close>

lemma torque_scan_eq:
  "torque_scan m = (if \<exists>e \<in> set m. \<not> snd e then TORQUE_DISABLED else TORQUE_ENABLED)"
  by (induction m) auto

lemma sync_ok_link_do [simp]: "sync_ok (link_do L c s) = sync_ok s"
  by (simp add: sync_ok_def link_do_def)

lemma ChangeDxlTorqueState_run:
  assumes "torque_requested s \<longrightarrow> sync_ok s"
  shows "\<exists>s1. ChangeDxlTorqueState L s = (Inr (), after_query L s1) \<and>
           io_log s1 = io_log s @ torque_call s \<and>
           (if torque_requested s
            then sync_frame (link_do L (hd (torque_call s)) s) s1 \<and>
                 sync_inv (link_do L (hd (torque_call s)) s) UNIV s1
            else s1 = s)"
proof (cases "torque_requested s")
  case False
  then show ?thesis
    by (simp add: ChangeDxlTorqueState_def torque_requested_def torque_call_def monad_defs
        after_query_def Let_def)
next
  case True
  let ?c = "hd (torque_call s)"
  have ok: "sync_ok (link_do L ?c s)" using True assms by simp
  from SyncJointCommandWithStates_inv [OF ok]
  obtain s1 where r: "SyncJointCommandWithStates (link_do L ?c s) = (Inr (), s1)"
    and f: "sync_frame (link_do L ?c s) s1" and i: "sync_inv (link_do L ?c s) UNIV s1"
    by blast
  have log: "io_log s1 = io_log s @ torque_call s"
    using sync_frame_facts(6) [OF f] True
    by (auto simp: link_do_def torque_call_def torque_requested_def)
  have "ChangeDxlTorqueState L s = (Inr (), after_query L s1)"
    using True r
    by (auto simp: ChangeDxlTorqueState_def torque_requested_def torque_call_def monad_defs
        after_query_def Let_def)
  then show ?thesis using True log f i by auto
qed

text \<open>
  Claim C5. After \<^verbatim>\<open>ChangeDxlTorqueState\<close> has asked the driver for the per-ID torque
  state (the last call it makes), \<^verbatim>\<open>dxl_torque_state_\<close> is the map the driver
  returned; the torque status is \<^verbatim>\<open>TORQUE_ENABLED\<close> if and only if every entry of the
  map is enabled, and \<^verbatim>\<open>TORQUE_DISABLED\<close> if and only if some entry is disabled.
\<close>

theorem torque_status_after_query:
  assumes "torque_requested s \<longrightarrow> sync_ok s"
  shows "\<exists>s'. ChangeDxlTorqueState L s = (Inr (), s') \<and>
           io_log s' = io_log s @ torque_call s @ [GetDxlTorqueState] \<and>
           dxl_torque_state s' = reply_torque L (length (io_log s @ torque_call s)) \<and>
           (dxl_torque_status s' = TORQUE_ENABLED \<longleftrightarrow> (\<forall>e \<in> set (dxl_torque_state s'). snd e)) \<and>
           (dxl_torque_status s' = TORQUE_DISABLED \<longleftrightarrow> (\<exists>e \<in> set (dxl_torque_state s'). \<not> snd e))"
proof -
  from ChangeDxlTorqueState_run [OF assms, of L]
  obtain s1 where r: "ChangeDxlTorqueState L s = (Inr (), after_query L s1)"
    and log: "io_log s1 = io_log s @ torque_call s" by blast
  show ?thesis
    using r log by (simp add: after_query_def link_do_def torque_scan_eq)
qed

theorem torque_status_after_query_witness:
  "fst (ChangeDxlTorqueState (link_quiet\<lparr>reply_torque := (\<lambda>n. [(5, True), (6, False)])\<rparr>) hw_example)
     = Inr () \<and>
   dxl_torque_status
     (snd (ChangeDxlTorqueState (link_quiet\<lparr>reply_torque := (\<lambda>n. [(5, True), (6, False)])\<rparr>)
        hw_example)) = TORQUE_DISABLED"
proof -
  have h: "torque_requested hw_example \<longrightarrow> sync_ok hw_example"
    by (simp add: torque_requested_def hw_example_def)
  show ?thesis
    using torque_status_after_query [OF h, of "link_quiet\<lparr>reply_torque := (\<lambda>n. [(5, True), (6, False)])\<rparr>"]
    by (auto simp: link_quiet_def hw_example_def torque_call_def)
qed

text \<open>
  Claim C6. A request to enable while the torque status is \<^verbatim>\<open>TORQUE_ENABLED\<close>, and a
  request to disable while it is \<^verbatim>\<open>TORQUE_DISABLED\<close>, answers success at once,
  whatever the control cycle does meanwhile, and leaves the whole state as it was:
  the torque status is not changed and no call is made on the driver.
\<close>

theorem set_torque_noop:
  "(dxl_torque_status s = TORQUE_ENABLED \<longrightarrow>
      set_dxl_torque_srv_callback True polls s =
        (\<lparr>success = True, message = ''Already enabled.''\<rparr>, s)) \<and>
   (dxl_torque_status s = TORQUE_DISABLED \<longrightarrow>
      set_dxl_torque_srv_callback False polls s =
        (\<lparr>success = True, message = ''Already disabled.''\<rparr>, s))"
  by (simp add: set_dxl_torque_srv_callback_def)

theorem set_torque_noop_witness:
  "dxl_torque_status hw_example = TORQUE_ENABLED \<and>
   success (fst (set_dxl_torque_srv_callback True [REQUESTED_TO_ENABLE] hw_example)) \<and>
   io_log (snd (set_dxl_torque_srv_callback True [REQUESTED_TO_ENABLE] hw_example)) = [] \<and>
   dxl_torque_status (snd (set_dxl_torque_srv_callback True [REQUESTED_TO_ENABLE] hw_example))
     = TORQUE_ENABLED"
proof -
  have h: "dxl_torque_status hw_example = TORQUE_ENABLED" by (simp add: hw_example_def)
  have "io_log hw_example = []" by (simp add: hw_example_def)
  then show ?thesis
    using h set_torque_noop [of hw_example "[REQUESTED_TO_ENABLE]"] by simp
qed

section \<open>Resynchronisation on a torque request\<close>

lemma sync_match_unique:
  assumes dn: "distinct (map hdl_name js)"
    and di: "\<forall>st \<in> set js. distinct (interface_name_vec st)"
    and m1: "sync_match js jc si k i" and m2: "sync_match js jc si' k i'"
  shows "si = si' \<and> i = i'"
proof -
  have b: "si < length js" "si' < length js" using m1 m2 by (simp_all add: sync_match_def)
  have "map hdl_name js ! si = map hdl_name js ! si'"
    using m1 m2 b by (simp add: sync_match_def)
  moreover have "si < length (map hdl_name js)" "si' < length (map hdl_name js)"
    using b by simp_all
  ultimately have e: "si = si'"
    using dn nth_eq_iff_index_eq by blast
  have d: "distinct (interface_name_vec (js ! si))" using di b by simp
  have "interface_name_vec (js ! si) ! i = interface_name_vec (js ! si) ! i'"
    using m1 m2 e by (simp add: sync_match_def)
  moreover have "i < length (interface_name_vec (js ! si))" "i' < length (interface_name_vec (js ! si))"
    using m1 m2 e by (simp_all add: sync_match_def)
  ultimately have "i = i'" using d by (simp add: nth_eq_iff_index_eq)
  then show ?thesis using e by simp
qed

text \<open>
  Claim C3, as the code has it. When \<^verbatim>\<open>ChangeDxlTorqueState\<close> sees
  \<^verbatim>\<open>REQUESTED_TO_ENABLE\<close> or \<^verbatim>\<open>REQUESTED_TO_DISABLE\<close> it calls \<^verbatim>\<open>DynamixelEnable\<close> or
  \<^verbatim>\<open>DynamixelDisable\<close> with the whole list \<^verbatim>\<open>dxl_id_\<close> and then synchronises: the
  value of the \<^emph>\<open>first\<close> interface of every joint command handler becomes the value of
  the state interface of the same name of the joint of the same name, and stays as it
  was when there is none; the joint states and every other value of the command
  handlers, so every further command interface, are left as they were. Joint names and
  the interface names of a state handler are taken to be distinct.
\<close>

theorem torque_request_resync:
  assumes req: "torque_requested s" and ok: "sync_ok s"
    and dn: "distinct (map hdl_name (hdl_joint_states s))"
    and di: "\<forall>st \<in> set (hdl_joint_states s). distinct (interface_name_vec st)"
  shows "\<exists>s'. ChangeDxlTorqueState L s = (Inr (), s') \<and>
           io_log s' = io_log s @
             [if dxl_torque_status s = REQUESTED_TO_ENABLE then DynamixelEnable (dxl_id s)
              else DynamixelDisable (dxl_id s), GetDxlTorqueState] \<and>
           hdl_joint_states s' = hdl_joint_states s \<and>
           map cmd_shape (hdl_joint_commands s') = map cmd_shape (hdl_joint_commands s) \<and>
           (\<forall>k < length (hdl_joint_commands s).
              (\<forall>si i. sync_match (hdl_joint_states s) (hdl_joint_commands s) si k i \<longrightarrow>
                 value_ptr_vec (hdl_joint_commands s' ! k) ! 0 =
                 value_ptr_vec (hdl_joint_states s ! si) ! i) \<and>
              ((\<forall>si i. \<not> sync_match (hdl_joint_states s) (hdl_joint_commands s) si k i) \<longrightarrow>
                 value_ptr_vec (hdl_joint_commands s' ! k) ! 0 =
                 value_ptr_vec (hdl_joint_commands s ! k) ! 0))"
proof -
  let ?s0 = "link_do L (hd (torque_call s)) s"
  have js0: "hdl_joint_states ?s0 = hdl_joint_states s"
    and jc0: "hdl_joint_commands ?s0 = hdl_joint_commands s"
    by (simp_all add: link_do_def)
  from ChangeDxlTorqueState_run [of s L] req ok
  obtain s1 where r: "ChangeDxlTorqueState L s = (Inr (), after_query L s1)"
    and log: "io_log s1 = io_log s @ torque_call s"
    and fr: "sync_frame ?s0 s1" and inv: "sync_inv ?s0 UNIV s1"
    by auto
  let ?s' = "after_query L s1"
  have jc': "hdl_joint_commands ?s' = hdl_joint_commands s1"
    and js': "hdl_joint_states ?s' = hdl_joint_states s1"
    by (simp_all add: after_query_def link_do_def)
  have a: "io_log ?s' = io_log s @
             [if dxl_torque_status s = REQUESTED_TO_ENABLE then DynamixelEnable (dxl_id s)
              else DynamixelDisable (dxl_id s), GetDxlTorqueState]"
    using log req by (auto simp: after_query_def link_do_def torque_call_def torque_requested_def)
  have b: "hdl_joint_states ?s' = hdl_joint_states s"
    using sync_frame_facts(1) [OF fr] js' js0 by simp
  have c: "map cmd_shape (hdl_joint_commands ?s') = map cmd_shape (hdl_joint_commands s)"
    using fr jc' jc0 by (simp add: sync_frame_def)
  have d: "\<forall>k < length (hdl_joint_commands s).
              (\<forall>si i. sync_match (hdl_joint_states s) (hdl_joint_commands s) si k i \<longrightarrow>
                 value_ptr_vec (hdl_joint_commands ?s' ! k) ! 0 =
                 value_ptr_vec (hdl_joint_states s ! si) ! i) \<and>
              ((\<forall>si i. \<not> sync_match (hdl_joint_states s) (hdl_joint_commands s) si k i) \<longrightarrow>
                 value_ptr_vec (hdl_joint_commands ?s' ! k) ! 0 =
                 value_ptr_vec (hdl_joint_commands s ! k) ! 0)"
  proof (intro allI impI)
    fix k assume k: "k < length (hdl_joint_commands s)"
    from inv k have alt:
      "(value_ptr_vec (hdl_joint_commands s1 ! k) ! 0 = value_ptr_vec (hdl_joint_commands s ! k) ! 0 \<and>
         (\<forall>si i. \<not> sync_match (hdl_joint_states s) (hdl_joint_commands s) si k i)) \<or>
        (\<exists>si i. sync_match (hdl_joint_states s) (hdl_joint_commands s) si k i \<and>
           value_ptr_vec (hdl_joint_commands s1 ! k) ! 0 = value_ptr_vec (hdl_joint_states s ! si) ! i)"
      unfolding sync_inv_def js0 jc0 by simp
    show "(\<forall>si i. sync_match (hdl_joint_states s) (hdl_joint_commands s) si k i \<longrightarrow>
                 value_ptr_vec (hdl_joint_commands ?s' ! k) ! 0 =
                 value_ptr_vec (hdl_joint_states s ! si) ! i) \<and>
              ((\<forall>si i. \<not> sync_match (hdl_joint_states s) (hdl_joint_commands s) si k i) \<longrightarrow>
                 value_ptr_vec (hdl_joint_commands ?s' ! k) ! 0 =
                 value_ptr_vec (hdl_joint_commands s ! k) ! 0)"
      using alt sync_match_unique [OF dn di] unfolding jc' by metis
  qed
  show ?thesis using r a b c d by blast
qed

theorem torque_request_resync_witness:
  "sync_match (hdl_joint_states hw_example) (hdl_joint_commands hw_example) 0 0 0 \<and>
   value_ptr_vec (hdl_joint_commands
     (snd (ChangeDxlTorqueState link_quiet (hw_example\<lparr>dxl_torque_status := REQUESTED_TO_ENABLE\<rparr>))) ! 0) ! 0
     = 1 \<and>
   io_log (snd (ChangeDxlTorqueState link_quiet (hw_example\<lparr>dxl_torque_status := REQUESTED_TO_ENABLE\<rparr>)))
     = [DynamixelEnable [5], GetDxlTorqueState]"
proof -
  let ?s = "hw_example\<lparr>dxl_torque_status := REQUESTED_TO_ENABLE\<rparr>"
  have h1: "torque_requested ?s" by (simp add: torque_requested_def)
  have h2: "sync_ok ?s" by (simp add: sync_ok_def hw_example_def)
  have h3: "distinct (map hdl_name (hdl_joint_states ?s))" by (simp add: hw_example_def)
  have h4: "\<forall>st \<in> set (hdl_joint_states ?s). distinct (interface_name_vec st)"
    by (simp add: hw_example_def)
  have m: "sync_match (hdl_joint_states ?s) (hdl_joint_commands ?s) 0 0 0"
    by (simp add: sync_match_def hw_example_def)
  have l: "length (hdl_joint_commands ?s) = 1" "value_ptr_vec (hdl_joint_states ?s ! 0) ! 0 = 1"
    "io_log ?s = []" "dxl_id ?s = [5]" "dxl_torque_status ?s = REQUESTED_TO_ENABLE"
    by (simp_all add: hw_example_def)
  from torque_request_resync [OF h1 h2 h3 h4, of link_quiet]
  obtain s' where r: "ChangeDxlTorqueState link_quiet ?s = (Inr (), s')"
    and a: "io_log s' = [DynamixelEnable [5], GetDxlTorqueState]"
    and d: "\<forall>k < 1. \<forall>si i. sync_match (hdl_joint_states ?s) (hdl_joint_commands ?s) si k i \<longrightarrow>
                 value_ptr_vec (hdl_joint_commands s' ! k) ! 0 =
                 value_ptr_vec (hdl_joint_states ?s ! si) ! i"
    unfolding l by auto
  have "value_ptr_vec (hdl_joint_commands s' ! 0) ! 0 = 1"
    using d m l(2) by auto
  then show ?thesis using r a m by simp
qed

text \<open>
  Claim C3 as stated fails: a joint whose command handler exposes \<^verbatim>\<open>position\<close> and
  \<^verbatim>\<open>velocity\<close>, with commands 10 and 20 and states 1, 2 and 3, has commands 1 and 20
  after the request has been applied. The velocity command is not the velocity state.
\<close>

theorem resync_only_first_interface:
  "map value_ptr_vec (hdl_joint_commands
     (snd (ChangeDxlTorqueState link_quiet (hw_example\<lparr>dxl_torque_status := REQUESTED_TO_ENABLE\<rparr>))))
     = [[1, 20]] \<and>
   map value_ptr_vec (hdl_joint_states
     (snd (ChangeDxlTorqueState link_quiet (hw_example\<lparr>dxl_torque_status := REQUESTED_TO_ENABLE\<rparr>))))
     = [[1, 2, 3]] \<and>
   map interface_name_vec (hdl_joint_commands hw_example) = [[''position'', ''velocity'']]"
  by (simp add: eval_defs hw_example_def link_quiet_def)


section \<open>Kinematic mapping: what the loops compute\<close>

lemma chan_inv_start: "chan_inv k F hs0 0 hs0"
  by (simp add: chan_inv_def)

lemma chan_inv_step:
  assumes inv: "chan_inv k F hs0 i hs" and i: "i < length hs0"
    and kk: "k < length (value_ptr_vec (hs0 ! i))"
  shows "set_value hs i k (F i) =
           Inr (hs[i := (hs ! i)\<lparr>value_ptr_vec := (value_ptr_vec (hs ! i))[k := F i]\<rparr>])"
    and "chan_inv k F hs0 (Suc i)
           (hs[i := (hs ! i)\<lparr>value_ptr_vec := (value_ptr_vec (hs ! i))[k := F i]\<rparr>])"
proof -
  have len: "length hs = length hs0" using inv by (simp add: chan_inv_def)
  have at_i: "hs ! i = hs0 ! i" using inv i by (simp add: chan_inv_def)
  show "set_value hs i k (F i) =
           Inr (hs[i := (hs ! i)\<lparr>value_ptr_vec := (value_ptr_vec (hs ! i))[k := F i]\<rparr>])"
    using i kk len at_i by (simp add: set_value_def at_vec_def)
  show "chan_inv k F hs0 (Suc i)
           (hs[i := (hs ! i)\<lparr>value_ptr_vec := (value_ptr_vec (hs ! i))[k := F i]\<rparr>])"
    unfolding chan_inv_def
  proof (intro conjI allI impI)
    show "length (hs[i := (hs ! i)\<lparr>value_ptr_vec := (value_ptr_vec (hs ! i))[k := F i]\<rparr>]) = length hs0"
      using len by simp
  next
    fix j assume j: "j < length hs0"
    have old: "hs ! j = (if j < i then (hs0 ! j)\<lparr>value_ptr_vec := (value_ptr_vec (hs0 ! j))[k := F j]\<rparr>
                  else hs0 ! j)"
      using inv j by (simp add: chan_inv_def)
    show "hs[i := (hs ! i)\<lparr>value_ptr_vec := (value_ptr_vec (hs ! i))[k := F i]\<rparr>] ! j =
          (if j < Suc i then (hs0 ! j)\<lparr>value_ptr_vec := (value_ptr_vec (hs0 ! j))[k := F j]\<rparr>
           else hs0 ! j)"
    proof (cases "j = i")
      case True
      then show ?thesis using i len at_i by simp
    next
      case False
      then show ?thesis using old i len by auto
    qed
  qed
qed

text \<open>An outer loop that stores \<open>F i\<close> into slot \<open>k\<close> of handler \<open>i\<close> of one handler vector.\<close>

lemma channel_loop:
  fixes GET :: "hw \<Rightarrow> HandlerVarType list" and PUT :: "HandlerVarType list \<Rightarrow> hw \<Rightarrow> hw"
  assumes n: "n \<le> length hs0" and slots: "\<And>i. i < n \<Longrightarrow> k < length (value_ptr_vec (hs0 ! i))"
    and row: "\<And>i hs. i < n \<Longrightarrow> ROW i (PUT hs s0) = (Inr (F i), PUT hs s0)"
    and gp: "\<And>hs s. GET (PUT hs s) = hs" and pp: "\<And>hs hs' s. PUT hs (PUT hs' s) = PUT hs s"
  shows "\<exists>hs'. for_loop [0..<n]
                  (\<lambda>i _. ebind (ROW i) (\<lambda>value.
                     ebind (lift_sum (\<lambda>s'. set_value (GET s') i k value)) (\<lambda>x. modify (PUT x))))
                  () (PUT hs0 s0) = (Inr (), PUT hs' s0) \<and> chan_inv k F hs0 n hs'"
proof -
  let ?body = "\<lambda>i (_ :: unit). ebind (ROW i) (\<lambda>value.
                     ebind (lift_sum (\<lambda>s'. set_value (GET s') i k value)) (\<lambda>x. modify (PUT x)))"
  let ?P = "\<lambda>i (a :: unit) s'. \<exists>hs. s' = PUT hs s0 \<and> chan_inv k F hs0 i hs"
  have "\<exists>a' s'. for_loop [0..<n] ?body () (PUT hs0 s0) = (Inr a', s') \<and> ?P n a' s'"
  proof (rule for_upt_rule [where P = ?P])
    show "?P 0 () (PUT hs0 s0)" using chan_inv_start by blast
  next
    fix i a s1
    assume i: "i < n" and p: "?P i a s1"
    then obtain hs where s1: "s1 = PUT hs s0" and inv: "chan_inv k F hs0 i hs" by blast
    let ?hs' = "hs[i := (hs ! i)\<lparr>value_ptr_vec := (value_ptr_vec (hs ! i))[k := F i]\<rparr>]"
    have il: "i < length hs0" using i n by simp
    note st = chan_inv_step [OF inv il slots [OF i]]
    have "?body i a s1 = (Inr (), PUT ?hs' s0)"
      using row [OF i, of hs] st(1) by (simp add: s1 ebind_def lift_sum_def modify_def gp pp)
    then show "\<exists>a' s'. ?body i a s1 = (Inr a', s') \<and> ?P (Suc i) a' s'"
      using st(2) by blast
  qed
  then show ?thesis by auto
qed

lemma row_loop:
  assumes n: "n \<le> length hs" and slots: "\<And>j. j < n \<Longrightarrow> k < length (value_ptr_vec (hs ! j))"
    and g: "G s = hs"
  shows "for_loop [0..<n]
           (\<lambda>j value s'.
              case get_value (G s') j k of
                Inl e \<Rightarrow> (Inl e, s')
              | Inr x \<Rightarrow> (Inr (double_mul_add s' value (M s' ! i ! j) x), s'))
           0 s =
         (Inr (foldl (\<lambda>value j. double_mul_add s value (M s ! i ! j)
                                   (value_ptr_vec (G s ! j) ! k))
                 0 [0..<n]), s)"
proof -
  let ?body = "\<lambda>j value s'.
              case get_value (G s') j k of
                Inl e \<Rightarrow> (Inl e, s')
              | Inr x \<Rightarrow> (Inr (double_mul_add s' value (M s' ! i ! j) x), s')"
  let ?f = "\<lambda>value j. double_mul_add s value (M s ! i ! j) (value_ptr_vec (G s ! j) ! k)"
  let ?P = "\<lambda>m (a :: real) s'. s' = s \<and> a = foldl ?f 0 [0..<m]"
  have "\<exists>a' s'. for_loop [0..<n] ?body 0 s = (Inr a', s') \<and> ?P n a' s'"
  proof (rule for_upt_rule [where P = ?P])
    show "?P 0 0 s" by simp
  next
    fix j a s1
    assume j: "j < n" and p: "?P j a s1"
    have "get_value (G s) j k = Inr (value_ptr_vec (G s ! j) ! k)"
      using j n slots [OF j] g by (simp add: get_value_def at_vec_def)
    then show "\<exists>a' s'. ?body j a s1 = (Inr a', s') \<and> ?P (Suc j) a' s'"
      using p by simp
  qed
  then show ?thesis by auto
qed

text \<open>Where \<^verbatim>\<open>value += a * b\<close> does not round, the sum is the sum of the products.\<close>

lemma foldl_add_upt:
  "foldl (\<lambda>value j. value + g j) (0 :: real) [0..<n] = (\<Sum>j<n. g j)"
  by (induction n) simp_all

lemma T2J_sum_exact:
  assumes "double_mul_add s = (\<lambda>value a b. value + a * b)"
  shows "T2J_sum s i k =
           (\<Sum>j<num_of_transmissions s.
              transmission_to_joint_matrix s ! i ! j * value_ptr_vec (hdl_trans_states s ! j) ! k)"
  unfolding T2J_sum_def assms by (rule foldl_add_upt)

lemma J2T_sum_exact:
  assumes "double_mul_add s = (\<lambda>value a b. value + a * b)"
  shows "J2T_sum s i =
           (\<Sum>j<num_of_joints s.
              joint_to_transmission_matrix s ! i ! j * value_ptr_vec (hdl_joint_commands s ! j) ! 0)"
  unfolding J2T_sum_def assms by (rule foldl_add_upt)

lemma take_ball_nth:
  assumes "\<forall>h \<in> set (take n hs). P h" and "n \<le> length hs" and "i < n"
  shows "P (hs ! i)"
proof -
  have "take n hs ! i \<in> set (take n hs)" using assms(2,3) by (intro nth_mem) simp
  then show ?thesis using assms by simp
qed

lemma T2J_channel_run:
  assumes nj: "num_of_joints s0 \<le> length js"
    and nt: "num_of_transmissions s0 \<le> length (hdl_trans_states s0)"
    and sj: "\<And>i. i < num_of_joints s0 \<Longrightarrow> k < length (value_ptr_vec (js ! i))"
    and st: "\<And>j. j < num_of_transmissions s0 \<Longrightarrow> k < length (value_ptr_vec (hdl_trans_states s0 ! j))"
  shows "\<exists>js'. T2J_channel k (s0\<lparr>hdl_joint_states := js\<rparr>) = (Inr (), s0\<lparr>hdl_joint_states := js'\<rparr>) \<and>
           chan_inv k (\<lambda>i. T2J_sum s0 i k) js (num_of_joints s0) js'"
proof -
  let ?F = "\<lambda>i. T2J_sum s0 i k"
  have row: "T2J_row i k (s0\<lparr>hdl_joint_states := hs\<rparr>) = (Inr (?F i), s0\<lparr>hdl_joint_states := hs\<rparr>)" for i hs
    unfolding T2J_row_def T2J_sum_def
    using row_loop [where G = hdl_trans_states and M = transmission_to_joint_matrix
        and s = "s0\<lparr>hdl_joint_states := hs\<rparr>" and hs = "hdl_trans_states s0"
        and n = "num_of_transmissions s0" and k = k and i = i] nt st
    by simp
  from channel_loop [where GET = hdl_joint_states and PUT = "\<lambda>x s. s\<lparr>hdl_joint_states := x\<rparr>"
      and ROW = "\<lambda>i. T2J_row i k" and F = ?F and n = "num_of_joints s0" and ?hs0.0 = js
      and ?s0.0 = s0 and k = k] nj sj row
  show ?thesis by (simp add: T2J_channel_def)
qed


lemma chan_inv_facts:
  assumes "chan_inv k F hs0 m hs"
  shows "length hs = length hs0"
    and "i < length hs0 \<Longrightarrow> length (value_ptr_vec (hs ! i)) = length (value_ptr_vec (hs0 ! i))"
    and "i < length hs0 \<Longrightarrow>
           hs ! i = (if i < m then (hs0 ! i)\<lparr>value_ptr_vec := (value_ptr_vec (hs0 ! i))[k := F i]\<rparr>
                     else hs0 ! i)"
  using assms by (simp_all add: chan_inv_def)

lemma CalcTransmissionToJoint_run:
  assumes ok: "t2j_ok s"
  shows "\<exists>js'. CalcTransmissionToJoint s = (Inr (), s\<lparr>hdl_joint_states := js'\<rparr>) \<and>
           length js' = length (hdl_joint_states s) \<and>
           (\<forall>i < length (hdl_joint_states s).
              js' ! i =
                (if i < num_of_joints s then
                   (hdl_joint_states s ! i)\<lparr>value_ptr_vec :=
                      (value_ptr_vec (hdl_joint_states s ! i))
                        [0 := T2J_sum s i 0, 1 := T2J_sum s i 1, 2 := T2J_sum s i 2]\<rparr>
                 else hdl_joint_states s ! i))"
proof -
  let ?js = "hdl_joint_states s" and ?nj = "num_of_joints s" and ?nt = "num_of_transmissions s"
  have nj: "?nj \<le> length ?js" and nt: "?nt \<le> length (hdl_trans_states s)"
    using ok by (simp_all add: t2j_ok_def)
  have lj: "3 \<le> length (value_ptr_vec (?js ! i))" if "i < ?nj" for i
    using take_ball_nth [where P = "\<lambda>h. 3 \<le> length (value_ptr_vec h)", OF _ nj that] ok
    by (simp add: t2j_ok_def)
  have lt: "3 \<le> length (value_ptr_vec (hdl_trans_states s ! j))" if "j < ?nt" for j
    using take_ball_nth [where P = "\<lambda>h. 3 \<le> length (value_ptr_vec h)", OF _ nt that] ok
    by (simp add: t2j_ok_def)
  have st: "k < 3 \<Longrightarrow> j < ?nt \<Longrightarrow> k < length (value_ptr_vec (hdl_trans_states s ! j))" for k j
    using lt [of j] by simp
  have s_eq: "s = s\<lparr>hdl_joint_states := ?js\<rparr>" by simp
  \<comment> \<open>position\<close>
  from T2J_channel_run [where ?s0.0 = s and js = ?js and k = 0] nj nt lj st
  obtain js1 where r1: "T2J_channel 0 s = (Inr (), s\<lparr>hdl_joint_states := js1\<rparr>)"
    and c1: "chan_inv 0 (\<lambda>i. T2J_sum s i 0) ?js ?nj js1"
    by fastforce
  note f1 = chan_inv_facts [OF c1]
  \<comment> \<open>velocity\<close>
  have nj1: "?nj \<le> length js1" using f1(1) nj by simp
  have lj1: "1 < length (value_ptr_vec (js1 ! i))" if "i < ?nj" for i
    using f1(2) [of i] lj [OF that] nj that by simp
  from T2J_channel_run [where ?s0.0 = s and js = js1 and k = 1] nj1 nt lj1 st
  obtain js2 where r2: "T2J_channel 1 (s\<lparr>hdl_joint_states := js1\<rparr>) = (Inr (), s\<lparr>hdl_joint_states := js2\<rparr>)"
    and c2: "chan_inv 1 (\<lambda>i. T2J_sum s i 1) js1 ?nj js2"
    by fastforce
  note f2 = chan_inv_facts [OF c2]
  \<comment> \<open>effort\<close>
  have nj2: "?nj \<le> length js2" using f2(1) nj1 by simp
  have lj2: "2 < length (value_ptr_vec (js2 ! i))" if "i < ?nj" for i
    using f2(2) [of i] f1(2) [of i] lj [OF that] nj nj1 that by simp
  from T2J_channel_run [where ?s0.0 = s and js = js2 and k = 2] nj2 nt lj2 st
  obtain js3 where r3: "T2J_channel 2 (s\<lparr>hdl_joint_states := js2\<rparr>) = (Inr (), s\<lparr>hdl_joint_states := js3\<rparr>)"
    and c3: "chan_inv 2 (\<lambda>i. T2J_sum s i 2) js2 ?nj js3"
    by fastforce
  note f3 = chan_inv_facts [OF c3]
  have run: "CalcTransmissionToJoint s = (Inr (), s\<lparr>hdl_joint_states := js3\<rparr>)"
    using r1 r2 r3
    by (simp add: CalcTransmissionToJoint_def ebind_def PRESENT_POSITION_INDEX_def
        PRESENT_VELOCITY_INDEX_def PRESENT_ERROT_INDEX_def)
  have len: "length js3 = length ?js" using f1(1) f2(1) f3(1) by simp
  have pt: "js3 ! i =
                (if i < ?nj then
                   (?js ! i)\<lparr>value_ptr_vec :=
                      (value_ptr_vec (?js ! i))
                        [0 := T2J_sum s i 0, 1 := T2J_sum s i 1, 2 := T2J_sum s i 2]\<rparr>
                 else ?js ! i)" if "i < length ?js" for i
    using f1(3) [of i] f2(3) [of i] f3(3) [of i] that f1(1) f2(1) by simp
  show ?thesis using run len pt by blast
qed

lemma CalcJointToTransmission_run:
  assumes ok: "j2t_ok s"
  shows "\<exists>tc'. CalcJointToTransmission s = (Inr (), s\<lparr>hdl_trans_commands := tc'\<rparr>) \<and>
           length tc' = length (hdl_trans_commands s) \<and>
           (\<forall>i < length (hdl_trans_commands s).
              tc' ! i =
                (if i < num_of_transmissions s then
                   (hdl_trans_commands s ! i)\<lparr>value_ptr_vec :=
                      (value_ptr_vec (hdl_trans_commands s ! i))[0 := J2T_sum s i]\<rparr>
                 else hdl_trans_commands s ! i))"
proof -
  let ?tc = "hdl_trans_commands s" and ?nj = "num_of_joints s" and ?nt = "num_of_transmissions s"
  have nj: "?nj \<le> length (hdl_joint_commands s)" and nt: "?nt \<le> length ?tc"
    using ok by (simp_all add: j2t_ok_def)
  have lt: "0 < length (value_ptr_vec (?tc ! i))" if "i < ?nt" for i
    using take_ball_nth [where P = "\<lambda>h. value_ptr_vec h \<noteq> []", OF _ nt that] ok
    by (simp add: j2t_ok_def)
  have lj: "0 < length (value_ptr_vec (hdl_joint_commands s ! j))" if "j < ?nj" for j
    using take_ball_nth [where P = "\<lambda>h. value_ptr_vec h \<noteq> []", OF _ nj that] ok
    by (simp add: j2t_ok_def)
  have row: "J2T_row i (s\<lparr>hdl_trans_commands := hs\<rparr>) = (Inr (J2T_sum s i), s\<lparr>hdl_trans_commands := hs\<rparr>)"
    for i hs
    unfolding J2T_row_def J2T_sum_def
    using row_loop [where G = hdl_joint_commands and M = joint_to_transmission_matrix
        and s = "s\<lparr>hdl_trans_commands := hs\<rparr>" and hs = "hdl_joint_commands s"
        and n = ?nj and k = 0 and i = i] nj lj
    by simp
  from channel_loop [where GET = hdl_trans_commands and PUT = "\<lambda>x s. s\<lparr>hdl_trans_commands := x\<rparr>"
      and ROW = J2T_row and F = "J2T_sum s" and n = ?nt and ?hs0.0 = ?tc
      and ?s0.0 = s and k = 0] nt lt row
  obtain tc' where r: "CalcJointToTransmission s = (Inr (), s\<lparr>hdl_trans_commands := tc'\<rparr>)"
    and c: "chan_inv 0 (J2T_sum s) ?tc ?nt tc'"
    by (auto simp: CalcJointToTransmission_def)
  note f = chan_inv_facts [OF c]
  show ?thesis using r f(1) f(3) by blast
qed





text \<open>
  The \<open>i\<close>-th transmission command handler is the \<open>i\<close>-th actuator only where every
  actuator has a single command interface. With two actuators of two command
  interfaces each and the identity matrix, the position command 20 of the second
  joint is stored in the \<^verbatim>\<open>Goal Velocity\<close> handler of the first actuator, and the
  handlers of the second actuator stay 0.
\<close>

lemma inverse_mapping_handler_index:
  "map (\<lambda>h. (hdl_id h, interface_name_vec h)) (hdl_trans_commands hw_two_actuators) =
     [(5, [''Goal Position'']), (5, [''Goal Velocity'']),
      (6, [''Goal Position'']), (6, [''Goal Velocity''])] \<and>
   map value_ptr_vec (hdl_trans_commands (snd (CalcJointToTransmission hw_two_actuators))) =
     [[10], [20], [0], [0]]"
  by (simp add: eval_defs hw_two_actuators_def hw_example_def numeral_2_eq_2)


section \<open>The read step\<close>

lemma keepsI: "(\<And>s. Q s \<Longrightarrow> Q (snd (m s))) \<Longrightarrow> keeps Q m"
  by (simp add: keeps_def)

lemma keepsD: "keeps Q m \<Longrightarrow> Q s \<Longrightarrow> Q (snd (m s))"
  by (simp add: keeps_def)

lemma keeps_ebind:
  assumes "keeps Q m" and "\<And>a. keeps Q (f a)"
  shows "keeps Q (ebind m f)"
proof (rule keepsI)
  fix s assume q: "Q s"
  obtain r s1 where m: "m s = (r, s1)" by force
  have q1: "Q s1" using keepsD [OF assms(1) q] m by simp
  show "Q (snd (ebind m f s))"
  proof (cases r)
    case (Inl e)
    then show ?thesis using m q1 by (simp add: ebind_def)
  next
    case (Inr a)
    then show ?thesis using m keepsD [OF assms(2) q1, of a] by (simp add: ebind_def)
  qed
qed

lemma keeps_for_loop:
  assumes "\<And>i a. keeps Q (body i a)"
  shows "keeps Q (for_loop xs body a)"
proof (rule keepsI)
  fix s assume "Q s"
  then show "Q (snd (for_loop xs body a s))"
    by (rule for_loop_state_inv) (use assms in \<open>simp add: keeps_def\<close>)
qed

lemma keeps_modify: "(\<And>s. Q s \<Longrightarrow> Q (g s)) \<Longrightarrow> keeps Q (modify g)"
  by (simp add: keeps_def modify_def)

lemma keeps_ret: "keeps Q (ret a)"
  by (simp add: keeps_def ret_def)

lemma keeps_lift_sum: "keeps Q (lift_sum g)"
  by (simp add: keeps_def lift_sum_def)

lemma keeps_if: "keeps Q m1 \<Longrightarrow> keeps Q m2 \<Longrightarrow> keeps Q (if c then m1 else m2)"
  by simp

lemmas keeps_intros = keeps_ebind keeps_for_loop keeps_ret keeps_lift_sum keeps_if

text \<open>Every function of the cycle only appends to the log of driver calls.\<close>

lemma log_from_link_do: "log_from l s \<Longrightarrow> log_from l (link_do L c s)"
  by (simp add: log_from_def link_do_def)

lemma keeps_eq: "(\<And>s. m s = m' s) \<Longrightarrow> keeps Q m' \<Longrightarrow> keeps Q m"
  by (simp add: keeps_def)

lemma keeps_for_loop_st:
  assumes "\<And>i a. keeps Q (body i a)"
  shows "keeps Q (\<lambda>s. for_loop (X s) body a s)"
proof (rule keepsI)
  fix s assume "Q s"
  then show "Q (snd (for_loop (X s) body a s))"
    using keeps_for_loop [of Q body "X s" a, OF assms] by (simp add: keeps_def)
qed

lemma keeps_log_T2J_row: "keeps (log_from l) (T2J_row i k)"
  by (rule keeps_eq [OF T2J_row_def])
     (intro keeps_for_loop_st keepsI, auto split: sum.splits)

lemma keeps_log_T2J_channel: "keeps (log_from l) (T2J_channel k)"
  by (rule keeps_eq [OF T2J_channel_def])
     (intro keeps_for_loop_st keeps_intros keeps_log_T2J_row keeps_modify,
      simp add: log_from_def)

lemma keeps_log_CalcTransmissionToJoint: "keeps (log_from l) CalcTransmissionToJoint"
  unfolding CalcTransmissionToJoint_def
  by (intro keeps_intros keeps_log_T2J_channel)

lemma keeps_log_ReadSensorData: "keeps (log_from l) (ReadSensorData L sensor)"
proof (rule keeps_eq [OF ReadSensorData_def], rule keeps_for_loop, rule keepsI)
  fix item :: string and a :: unit and s1
  assume q: "log_from l s1"
  let ?data = "reply_item L (length (io_log s1))"
  let ?inner = "\<lambda>i (_ :: unit) s3.
                  for_loop [0..<length (interface_name_vec (hdl_sensor_states s3 ! i))]
                    (\<lambda>j _ s4.
                       if hdl_name (hdl_sensor_states s4 ! i) = hdl_name sensor \<and>
                          interface_name_vec (hdl_sensor_states s4 ! i) ! j = item
                       then
                         (case set_value (hdl_sensor_states s4) i j (real (unat ?data)) of
                            Inl e \<Rightarrow> (Inl e, s4)
                          | Inr ss \<Rightarrow> (Inr (), s4\<lparr>hdl_sensor_states := ss\<rparr>))
                       else (Inr (), s4))
                    () s3"
  have k: "keeps (log_from l) (\<lambda>s2. for_loop [0..<length (hdl_sensor_states s2)] ?inner () s2)"
    by (intro keeps_for_loop_st keepsI) (auto simp: log_from_def split: sum.splits)
  show "log_from l (snd (let data = reply_item L (length (io_log s1));
              s2 = link_do L (ReadItem (hdl_id sensor) item) s1
          in for_loop [0..<length (hdl_sensor_states s2)]
               (\<lambda>i _ s3.
                  for_loop [0..<length (interface_name_vec (hdl_sensor_states s3 ! i))]
                    (\<lambda>j _ s4.
                       if hdl_name (hdl_sensor_states s4 ! i) = hdl_name sensor \<and>
                          interface_name_vec (hdl_sensor_states s4 ! i) ! j = item
                       then
                         (case set_value (hdl_sensor_states s4) i j (real (unat data)) of
                            Inl e \<Rightarrow> (Inl e, s4)
                          | Inr ss \<Rightarrow> (Inr (), s4\<lparr>hdl_sensor_states := ss\<rparr>))
                       else (Inr (), s4))
                    () s3)
               () s2))"
    using keepsD [OF k log_from_link_do [OF q, of L "ReadItem (hdl_id sensor) item"]]
    by (simp add: Let_def)
qed

lemma keeps_log_read_rest: "keeps (log_from l) (read_rest L)"
  unfolding read_rest_def
  by (intro keeps_intros keeps_log_CalcTransmissionToJoint keeps_for_loop_st
      keeps_log_ReadSensorData keeps_modify log_from_link_do)

lemma keeps_log_check_hw_slot: "keeps (log_from l) (check_hw_slot i j error_state)"
  by (rule keepsI)
     (auto simp: check_hw_slot_def log_from_def log_msg_add_def Let_def split: sum.splits)

lemma keeps_log_check_hw_errors: "keeps (log_from l) (check_hw_errors error_state)"
proof (rule keeps_eq [OF check_hw_errors_def], rule keeps_for_loop_st, rule keepsI)
  fix i a s
  assume q: "log_from l s"
  show "log_from l (snd (case at_vec (hdl_trans_states s) i of
            Inl e \<Rightarrow> (Inl e, s)
          | Inr h \<Rightarrow> for_loop [0..<length (interface_name_vec h)] (check_hw_slot i) a s))"
    using q keepsD [OF keeps_for_loop [of "log_from l" "check_hw_slot i", OF keeps_log_check_hw_slot] q]
    by (auto split: sum.splits)
qed

lemma keeps_log_set_hw_state: "keeps (log_from l) (set_hw_state error_state)"
proof (rule keeps_eq [OF set_hw_state_def], rule keeps_for_loop_st, rule keepsI)
  fix i and a :: unit and s
  assume q: "log_from l s"
  have k: "keeps (log_from l) (for_loop xs
                (\<lambda>j _ s''.
                   if interface_name_vec h ! j = HW_IF_HARDWARE_STATE then
                     (case set_value (hdl_joint_states s'') i j (DxlError_value error_state) of
                        Inl e \<Rightarrow> (Inl e, s'')
                      | Inr js \<Rightarrow> (Inr (), s''\<lparr>hdl_joint_states := js\<rparr>))
                   else (Inr (), s''))
                ())" for xs h
    by (intro keeps_for_loop keepsI) (auto simp: log_from_def split: sum.splits)
  show "log_from l (snd (case at_vec (hdl_joint_states s) i of
            Inl e \<Rightarrow> (Inl e, s)
          | Inr h \<Rightarrow>
              for_loop [0..<length (interface_name_vec h)]
                (\<lambda>j _ s''.
                   if interface_name_vec h ! j = HW_IF_HARDWARE_STATE then
                     (case set_value (hdl_joint_states s'') i j (DxlError_value error_state) of
                        Inl e \<Rightarrow> (Inl e, s'')
                      | Inr js \<Rightarrow> (Inr (), s''\<lparr>hdl_joint_states := js\<rparr>))
                   else (Inr (), s''))
                () s))"
    using q keepsD [OF k q] by (auto split: sum.splits)
qed

lemma keeps_log_CheckError: "keeps (log_from l) (CheckError err)"
proof (rule keepsI)
  fix s assume q: "log_from l s"
  have k: "keeps (log_from l) (ebind (check_hw_errors OK) (\<lambda>error_state.
        ebind (set_hw_state error_state) (\<lambda>_. ret error_state)))"
    by (intro keeps_intros keeps_log_check_hw_errors keeps_log_set_hw_state)
  show "log_from l (snd (CheckError err s))"
    using q keepsD [OF k q] by (auto simp: CheckError_def log_from_def log_msg_add_def)
qed


lemma read_after_bulk_read:
  assumes "\<And>r. keeps (log_from (io_log s @ [ReadMultiDxlData])) (f r)"
  shows "log_from (io_log s @ [ReadMultiDxlData]) (snd (ebind (read_dxl L) f s))"
proof -
  let ?l = "io_log s @ [ReadMultiDxlData]"
  obtain err s1 where d: "dxl_ReadMultiDxlData L s = (err, s1)" by force
  then have q1: "log_from ?l s1"
    by (auto simp: dxl_ReadMultiDxlData_def Let_def link_do_def log_from_def)
  have k: "keeps (log_from ?l)
     (ebind (ebind (CheckError err) (\<lambda>r.
          ebind (modify (\<lambda>s2. s2\<lparr>dxl_comm_err := r\<rparr>)) (\<lambda>_. ret r))) f)"
    by (intro keeps_intros keeps_log_CheckError keeps_modify assms) (simp add: log_from_def)
  have "ebind (read_dxl L) f s =
        ebind (ebind (CheckError err) (\<lambda>r.
          ebind (modify (\<lambda>s2. s2\<lparr>dxl_comm_err := r\<rparr>)) (\<lambda>_. ret r))) f s1"
    using d by (simp add: ebind_def read_dxl_def)
  then show ?thesis using keepsD [OF k q1] by simp
qed

text \<open>
  Claim C7. In every call of \<^verbatim>\<open>read\<close> with the status \<^verbatim>\<open>DXL_OK\<close>, \<^verbatim>\<open>COMM_ERROR\<close> or
  \<^verbatim>\<open>HW_ERROR\<close> the first thing done on the driver is the bulk read
  \<^verbatim>\<open>ReadMultiDxlData\<close>, whatever happens afterwards; with the status \<^verbatim>\<open>REBOOTING\<close>
  the call returns \<^verbatim>\<open>ERROR\<close> and leaves the state, so the log of driver calls, as it
  was.
\<close>

theorem read_attempts_bulk_read:
  "(dxl_status s = DXL_OK \<or> dxl_status s = COMM_ERROR \<or> dxl_status s = HW_ERROR \<longrightarrow>
      prefix (io_log s @ [ReadMultiDxlData]) (io_log (snd (read L s)))) \<and>
   (dxl_status s = REBOOTING \<longrightarrow> read L s = (Inr return_ERROR, s))"
proof (intro conjI impI)
  assume "dxl_status s = REBOOTING"
  then show "read L s = (Inr return_ERROR, s)" by (simp add: read_def)
next
  let ?l = "io_log s @ [ReadMultiDxlData]"
  assume st: "dxl_status s = DXL_OK \<or> dxl_status s = COMM_ERROR \<or> dxl_status s = HW_ERROR"
  have k1: "keeps (log_from ?l) (if r \<noteq> OK then
            ebind (modify (log_msg_add (Dynamixel_Read_Fail r))) (\<lambda>_. ret return_ERROR)
          else read_rest L)" for r
    by (intro keeps_intros keeps_modify keeps_log_read_rest) (simp add: log_from_def log_msg_add_def)
  have k2: "keeps (log_from ?l)
          (ebind (if r \<noteq> OK then modify (log_msg_add (Dynamixel_Read_Fail r)) else ret ()) (\<lambda>_.
          read_rest L))" for r
    by (intro keeps_intros keeps_modify keeps_log_read_rest) (simp add: log_from_def log_msg_add_def)
  have "log_from ?l (snd (read L s))"
  proof (cases "dxl_status s = HW_ERROR")
    case True
    then show ?thesis using read_after_bulk_read [of s _ L, OF k2] by (simp add: read_def)
  next
    case False
    then have "dxl_status s = DXL_OK \<or> dxl_status s = COMM_ERROR" using st by simp
    then show ?thesis using read_after_bulk_read [of s _ L, OF k1] by (auto simp: read_def)
  qed
  then show "prefix ?l (io_log (snd (read L s)))" by (simp add: log_from_def)
qed

theorem read_attempts_bulk_read_witness:
  "dxl_status (hw_example\<lparr>dxl_status := COMM_ERROR\<rparr>) = COMM_ERROR \<and>
   prefix [ReadMultiDxlData] (io_log (snd (read link_quiet (hw_example\<lparr>dxl_status := COMM_ERROR\<rparr>)))) \<and>
   read link_quiet (hw_example\<lparr>dxl_status := REBOOTING\<rparr>) =
     (Inr return_ERROR, hw_example\<lparr>dxl_status := REBOOTING\<rparr>)"
proof -
  have "io_log (hw_example\<lparr>dxl_status := COMM_ERROR\<rparr>) = []" by (simp add: hw_example_def)
  then show ?thesis
    using read_attempts_bulk_read [of "hw_example\<lparr>dxl_status := COMM_ERROR\<rparr>" link_quiet]
      read_attempts_bulk_read [of "hw_example\<lparr>dxl_status := REBOOTING\<rparr>" link_quiet]
    by simp
qed


section \<open>A transport failure in the read step\<close>

lemma for_loop_total:
  assumes "I s"
    and "\<And>i a s. i \<in> set xs \<Longrightarrow> I s \<Longrightarrow> \<exists>a' s'. body i a s = (Inr a', s') \<and> I s'"
  shows "\<exists>a' s'. for_loop xs body a s = (Inr a', s') \<and> I s'"
  using assms
proof (induction xs arbitrary: a s)
  case Nil
  then show ?case by simp
next
  case (Cons x xs)
  from Cons.prems(2) [of x s a] Cons.prems(1)
  obtain a1 s1 where b: "body x a s = (Inr a1, s1)" and i1: "I s1" by auto
  from Cons.IH [OF i1, of a1] Cons.prems(2)
  obtain a' s' where "for_loop xs body a1 s1 = (Inr a', s')" and "I s'" by auto
  then show ?case using b by simp
qed

lemma sens_frame_refl: "sens_frame s s"
  unfolding sens_frame_def by (auto intro: exI [of _ "[]"])

lemma sens_frame_link_do:
  assumes "sens_frame s0 s"
  shows "sens_frame s0 (link_do L c s)"
proof -
  from assms obtain l where
    e: "s = s0\<lparr>hdl_sensor_states := hdl_sensor_states s, io_log := io_log s0 @ l, clock := clock s\<rparr>"
    and m: "map sens_shape (hdl_sensor_states s) = map sens_shape (hdl_sensor_states s0)"
    unfolding sens_frame_def by blast
  have il: "io_log s = io_log s0 @ l" by (subst e) simp
  have "link_do L c s = s0\<lparr>hdl_sensor_states := hdl_sensor_states (link_do L c s),
          io_log := io_log s0 @ (l @ [c]), clock := clock (link_do L c s)\<rparr>"
    by (subst (1) e) (simp add: link_do_def il)
  moreover have "map sens_shape (hdl_sensor_states (link_do L c s)) = map sens_shape (hdl_sensor_states s0)"
    using m by (simp add: link_do_def)
  ultimately show ?thesis unfolding sens_frame_def by blast
qed

lemma sens_frame_store:
  assumes fr: "sens_frame s0 s" and i: "i < length (hdl_sensor_states s)"
  shows "sens_frame s0
    (s\<lparr>hdl_sensor_states := (hdl_sensor_states s)
         [i := (hdl_sensor_states s ! i)\<lparr>value_ptr_vec := (value_ptr_vec (hdl_sensor_states s ! i))[j := v]\<rparr>]\<rparr>)"
proof -
  let ?ss = "hdl_sensor_states s"
  let ?ss' = "?ss[i := (?ss ! i)\<lparr>value_ptr_vec := (value_ptr_vec (?ss ! i))[j := v]\<rparr>]"
  from fr obtain l where
    e: "s = s0\<lparr>hdl_sensor_states := ?ss, io_log := io_log s0 @ l, clock := clock s\<rparr>"
    and m: "map sens_shape ?ss = map sens_shape (hdl_sensor_states s0)"
    unfolding sens_frame_def by blast
  have "s\<lparr>hdl_sensor_states := ?ss'\<rparr> =
        s0\<lparr>hdl_sensor_states := ?ss', io_log := io_log s0 @ l, clock := clock s\<rparr>"
    by (subst (1) e) simp
  moreover have "map sens_shape ?ss' = map sens_shape ?ss"
  proof -
    have "sens_shape ((?ss ! i)\<lparr>value_ptr_vec := (value_ptr_vec (?ss ! i))[j := v]\<rparr>) = sens_shape (?ss ! i)"
      by (simp add: sens_shape_def)
    moreover have "(map sens_shape ?ss)[i := sens_shape (?ss ! i)] = map sens_shape ?ss"
      using i by (metis list_update_id nth_map)
    ultimately show ?thesis by (simp add: map_update)
  qed
  ultimately show ?thesis unfolding sens_frame_def using m by auto
qed

lemma sens_frame_facts:
  assumes "sens_frame s0 s"
  shows "length (hdl_sensor_states s) = length (hdl_sensor_states s0)"
    and "i < length (hdl_sensor_states s0) \<Longrightarrow>
           interface_name_vec (hdl_sensor_states s ! i) = interface_name_vec (hdl_sensor_states s0 ! i)"
    and "i < length (hdl_sensor_states s0) \<Longrightarrow>
           length (value_ptr_vec (hdl_sensor_states s ! i)) = length (value_ptr_vec (hdl_sensor_states s0 ! i))"
    and "dxl_status s = dxl_status s0" and "logger s = logger s0" and "dxl_comm_err s = dxl_comm_err s0"
    and "prefix (io_log s0) (io_log s)"
    and "hdl_gpio_sensor_states s = hdl_gpio_sensor_states s0"
proof -
  from assms obtain l where
    e: "s = s0\<lparr>hdl_sensor_states := hdl_sensor_states s, io_log := io_log s0 @ l, clock := clock s\<rparr>"
    and m: "map sens_shape (hdl_sensor_states s) = map sens_shape (hdl_sensor_states s0)"
    unfolding sens_frame_def by blast
  show len: "length (hdl_sensor_states s) = length (hdl_sensor_states s0)"
    using m by (rule map_eq_imp_length_eq)
  show "dxl_status s = dxl_status s0" by (subst e) simp
  show "logger s = logger s0" by (subst e) simp
  show "dxl_comm_err s = dxl_comm_err s0" by (subst e) simp
  show "hdl_gpio_sensor_states s = hdl_gpio_sensor_states s0" by (subst e) simp
  show "prefix (io_log s0) (io_log s)" by (subst e) simp
  {
    assume i: "i < length (hdl_sensor_states s0)"
    then have "sens_shape (hdl_sensor_states s ! i) = sens_shape (hdl_sensor_states s0 ! i)"
      using map_eq_nth [OF m] len by simp
    then show "interface_name_vec (hdl_sensor_states s ! i) = interface_name_vec (hdl_sensor_states s0 ! i)"
      and "length (value_ptr_vec (hdl_sensor_states s ! i)) = length (value_ptr_vec (hdl_sensor_states s0 ! i))"
      by (simp_all add: sens_shape_def)
  }
qed

lemma ReadSensorData_run:
  assumes ok: "sensor_ok s0" and fr: "sens_frame s0 s"
  shows "\<exists>s'. ReadSensorData L sensor s = (Inr (), s') \<and> sens_frame s0 s'"
proof -
  have slot: "\<exists>a' s'.
      (if hdl_name (hdl_sensor_states s4 ! i) = hdl_name sensor \<and>
          interface_name_vec (hdl_sensor_states s4 ! i) ! j = item
       then (case set_value (hdl_sensor_states s4) i j v of
               Inl e \<Rightarrow> (Inl e, s4)
             | Inr ss \<Rightarrow> (Inr (), s4\<lparr>hdl_sensor_states := ss\<rparr>))
       else (Inr (), s4)) = (Inr a', s') \<and> sens_frame s0 s'"
    if f4: "sens_frame s0 s4" and i: "i < length (hdl_sensor_states s0)"
      and j: "j < length (interface_name_vec (hdl_sensor_states s0 ! i))"
    for s4 i j item v
  proof -
    note f = sens_frame_facts [OF f4]
    have "hdl_sensor_states s0 ! i \<in> set (hdl_sensor_states s0)" using i by simp
    then have "j < length (value_ptr_vec (hdl_sensor_states s0 ! i))"
      using ok j by (fastforce simp: sensor_ok_def)
    then have jv: "j < length (value_ptr_vec (hdl_sensor_states s4 ! i))" using f(3) [OF i] by simp
    have il: "i < length (hdl_sensor_states s4)" using i f(1) by simp
    show ?thesis
      using sens_frame_store [OF f4 il, of j v] f4 il jv
      by (simp add: set_value_def at_vec_def)
  qed
  have inner: "\<exists>a' s'.
      for_loop [0..<length (interface_name_vec (hdl_sensor_states s3 ! i))]
        (\<lambda>j _ s4.
           if hdl_name (hdl_sensor_states s4 ! i) = hdl_name sensor \<and>
              interface_name_vec (hdl_sensor_states s4 ! i) ! j = item
           then (case set_value (hdl_sensor_states s4) i j v of
                   Inl e \<Rightarrow> (Inl e, s4)
                 | Inr ss \<Rightarrow> (Inr (), s4\<lparr>hdl_sensor_states := ss\<rparr>))
           else (Inr (), s4))
        () s3 = (Inr a', s') \<and> sens_frame s0 s'"
    if f3: "sens_frame s0 s3" and i: "i < length (hdl_sensor_states s0)" for s3 i item v
  proof (rule for_loop_total [where I = "sens_frame s0"])
    show "sens_frame s0 s3" by (rule f3)
  next
    fix j and a :: unit and s4
    assume "j \<in> set [0..<length (interface_name_vec (hdl_sensor_states s3 ! i))]"
      and f4: "sens_frame s0 s4"
    then have "j < length (interface_name_vec (hdl_sensor_states s0 ! i))"
      using sens_frame_facts(2) [OF f3 i] by simp
    from slot [OF f4 i this]
    show "\<exists>a' s'.
      (if hdl_name (hdl_sensor_states s4 ! i) = hdl_name sensor \<and>
          interface_name_vec (hdl_sensor_states s4 ! i) ! j = item
       then (case set_value (hdl_sensor_states s4) i j v of
               Inl e \<Rightarrow> (Inl e, s4)
             | Inr ss \<Rightarrow> (Inr (), s4\<lparr>hdl_sensor_states := ss\<rparr>))
       else (Inr (), s4)) = (Inr a', s') \<and> sens_frame s0 s'" .
  qed
  have middle: "\<exists>a' s'.
      for_loop [0..<length (hdl_sensor_states s2)]
        (\<lambda>i _ s3.
           for_loop [0..<length (interface_name_vec (hdl_sensor_states s3 ! i))]
             (\<lambda>j _ s4.
                if hdl_name (hdl_sensor_states s4 ! i) = hdl_name sensor \<and>
                   interface_name_vec (hdl_sensor_states s4 ! i) ! j = item
                then (case set_value (hdl_sensor_states s4) i j v of
                        Inl e \<Rightarrow> (Inl e, s4)
                      | Inr ss \<Rightarrow> (Inr (), s4\<lparr>hdl_sensor_states := ss\<rparr>))
                else (Inr (), s4))
             () s3)
        () s2 = (Inr a', s') \<and> sens_frame s0 s'"
    if f2: "sens_frame s0 s2" for s2 item v
  proof (rule for_loop_total [where I = "sens_frame s0"])
    show "sens_frame s0 s2" by (rule f2)
  next
    fix i and a :: unit and s3
    assume "i \<in> set [0..<length (hdl_sensor_states s2)]" and f3: "sens_frame s0 s3"
    then have i: "i < length (hdl_sensor_states s0)" using sens_frame_facts(1) [OF f2] by simp
    from inner [OF f3 i]
    show "\<exists>a' s'.
           for_loop [0..<length (interface_name_vec (hdl_sensor_states s3 ! i))]
             (\<lambda>j _ s4.
                if hdl_name (hdl_sensor_states s4 ! i) = hdl_name sensor \<and>
                   interface_name_vec (hdl_sensor_states s4 ! i) ! j = item
                then (case set_value (hdl_sensor_states s4) i j v of
                        Inl e \<Rightarrow> (Inl e, s4)
                      | Inr ss \<Rightarrow> (Inr (), s4\<lparr>hdl_sensor_states := ss\<rparr>))
                else (Inr (), s4))
             () s3 = (Inr a', s') \<and> sens_frame s0 s'" .
  qed
  have "\<exists>a' s'. ReadSensorData L sensor s = (Inr a', s') \<and> sens_frame s0 s'"
    unfolding ReadSensorData_def
  proof (rule for_loop_total [where I = "sens_frame s0"])
    show "sens_frame s0 s" by (rule fr)
  next
    fix item :: string and a :: unit and s1
    assume f1: "sens_frame s0 s1"
    from middle [OF sens_frame_link_do [OF f1]]
    show "\<exists>a' s'.
       (let data = reply_item L (length (io_log s1));
            s2 = link_do L (ReadItem (hdl_id sensor) item) s1
        in for_loop [0..<length (hdl_sensor_states s2)]
             (\<lambda>i _ s3.
                for_loop [0..<length (interface_name_vec (hdl_sensor_states s3 ! i))]
                  (\<lambda>j _ s4.
                     if hdl_name (hdl_sensor_states s4 ! i) = hdl_name sensor \<and>
                        interface_name_vec (hdl_sensor_states s4 ! i) ! j = item
                     then (case set_value (hdl_sensor_states s4) i j (real (unat data)) of
                             Inl e \<Rightarrow> (Inl e, s4)
                           | Inr ss \<Rightarrow> (Inr (), s4\<lparr>hdl_sensor_states := ss\<rparr>))
                     else (Inr (), s4))
                  () s3)
             () s2) = (Inr a', s') \<and> sens_frame s0 s'"
      by (simp add: Let_def)
  qed
  then show ?thesis by auto
qed

lemma read_rest_run:
  assumes t: "t2j_ok s" and so: "sensor_ok s"
  shows "\<exists>s'. read_rest L s = (Inr return_OK, s') \<and> dxl_status s' = dxl_status s \<and>
           logger s' = logger s \<and> dxl_comm_err s' = dxl_comm_err s \<and>
           prefix (io_log s) (io_log s')"
proof -
  from CalcTransmissionToJoint_run [OF t]
  obtain js' where c: "CalcTransmissionToJoint s = (Inr (), s\<lparr>hdl_joint_states := js'\<rparr>)" by blast
  let ?s1 = "s\<lparr>hdl_joint_states := js'\<rparr>"
  have ok1: "sensor_ok ?s1" using so by (simp add: sensor_ok_def)
  have "\<exists>a' s'. for_loop (hdl_gpio_sensor_states ?s1) (\<lambda>sensor _. ReadSensorData L sensor) () ?s1
           = (Inr a', s') \<and> sens_frame ?s1 s'"
  proof (rule for_loop_total [where I = "sens_frame ?s1"])
    show "sens_frame ?s1 ?s1" by (rule sens_frame_refl)
  next
    fix sensor and a :: unit and s2
    assume "sens_frame ?s1 s2"
    from ReadSensorData_run [OF ok1 this, of L sensor]
    show "\<exists>a' s'. ReadSensorData L sensor s2 = (Inr a', s') \<and> sens_frame ?s1 s'" by auto
  qed
  then obtain s2 where
    l: "for_loop (hdl_gpio_sensor_states ?s1) (\<lambda>sensor _. ReadSensorData L sensor) () ?s1 = (Inr (), s2)"
    and f2: "sens_frame ?s1 s2" by auto
  note f = sens_frame_facts [OF f2]
  have "read_rest L s = (Inr return_OK, link_do L ReadItemBuf s2)"
    using c l by (simp add: read_rest_def ebind_def modify_def ret_def)
  moreover have "prefix (io_log s) (io_log (link_do L ReadItemBuf s2))"
    using f(7) by (simp add: link_do_def)
  ultimately show ?thesis using f(4,5,6) by (simp add: link_do_def)
qed


lemma read_slots_shape:
  "length (read_slots f hs) = length hs"
  "h \<in> set (take n (read_slots f hs)) \<Longrightarrow>
     \<exists>h0 \<in> set (take n hs). length (value_ptr_vec h) = length (value_ptr_vec h0)"
proof -
  show "length (read_slots f hs) = length hs" by (simp add: read_slots_def)
  assume "h \<in> set (take n (read_slots f hs))"
  then obtain p where p: "p \<in> set (take n (zip [0..<length hs] hs))"
    and h: "h = (case p of (j, h0) \<Rightarrow> h0\<lparr>value_ptr_vec :=
                        map (\<lambda>(k, x). f j k x) (zip [0..<length (value_ptr_vec h0)] (value_ptr_vec h0))\<rparr>)"
    by (auto simp: read_slots_def take_map)
  obtain j h0 where pj: "p = (j, h0)" by (cases p)
  have "h0 \<in> set (take n hs)"
    using p pj by (auto simp: take_zip dest: set_zip_rightD)
  moreover have "length (value_ptr_vec h) = length (value_ptr_vec h0)"
    using h pj by simp
  ultimately show "\<exists>h0 \<in> set (take n hs). length (value_ptr_vec h) = length (value_ptr_vec h0)"
    by blast
qed

lemma t2j_ok_after_bulk_read:
  assumes "t2j_ok s"
  shows "t2j_ok (snd (dxl_ReadMultiDxlData L s))"
proof -
  have "3 \<le> length (value_ptr_vec h)"
    if "h \<in> set (take (num_of_transmissions s) (read_slots f (hdl_trans_states s)))" for h f
    using read_slots_shape(2) [OF that] assms by (auto simp: t2j_ok_def)
  then show ?thesis
    using assms
    by (simp add: dxl_ReadMultiDxlData_def Let_def link_do_def t2j_ok_def read_slots_shape(1))
qed

lemma sensor_ok_after_bulk_read: "sensor_ok (snd (dxl_ReadMultiDxlData L s)) = sensor_ok s"
  by (simp add: dxl_ReadMultiDxlData_def Let_def link_do_def sensor_ok_def)

text \<open>
  Claim C9. Let the bulk read report a transport failure \<open>e\<close>. With the status
  \<^verbatim>\<open>HW_ERROR\<close> the read step returns \<^verbatim>\<open>OK\<close>: the failure is logged, the status becomes
  \<^verbatim>\<open>COMM_ERROR\<close> and \<^verbatim>\<open>dxl_comm_err_\<close> holds \<open>e\<close>. With the status \<^verbatim>\<open>DXL_OK\<close> or
  \<^verbatim>\<open>COMM_ERROR\<close> the same failure, logged the same way, makes the read step return
  \<^verbatim>\<open>ERROR\<close>. The configuration is one on which the rest of the read step throws
  nothing.
\<close>

theorem read_transport_failure:
  assumes t: "t2j_ok s" and so: "sensor_ok s"
    and fail: "reply_err L (length (io_log s)) ReadMultiDxlData = e" and e: "e \<noteq> OK"
  shows "(dxl_status s = HW_ERROR \<longrightarrow>
            (\<exists>s'. read L s = (Inr return_OK, s') \<and> dxl_status s' = COMM_ERROR \<and>
               dxl_comm_err s' = e \<and>
               logger s' = logger s @ [Communication_Fail e, Dynamixel_Read_Fail e])) \<and>
         (dxl_status s = DXL_OK \<or> dxl_status s = COMM_ERROR \<longrightarrow>
            (\<exists>s'. read L s = (Inr return_ERROR, s') \<and> dxl_status s' = COMM_ERROR \<and>
               dxl_comm_err s' = e \<and>
               logger s' = logger s @ [Communication_Fail e, Dynamixel_Read_Fail e]))"
proof -
  obtain err s1 where d: "dxl_ReadMultiDxlData L s = (err, s1)" by force
  have err: "err = e" using d fail by (simp add: dxl_ReadMultiDxlData_def Let_def)
  have lg1: "logger s1 = logger s"
    using d by (auto simp: dxl_ReadMultiDxlData_def Let_def link_do_def)
  have t1: "t2j_ok s1" using t2j_ok_after_bulk_read [OF t, of L] d by simp
  have so1: "sensor_ok s1" using sensor_ok_after_bulk_read [of L s] so d by simp
  let ?s2 = "(log_msg_add (Communication_Fail e) s1)\<lparr>dxl_status := COMM_ERROR, dxl_comm_err := e\<rparr>"
  let ?s3 = "log_msg_add (Dynamixel_Read_Fail e) ?s2"
  have rd: "read_dxl L s = (Inr e, ?s2)"
    using d err e by (simp add: read_dxl_def CheckError_def ebind_def modify_def ret_def)
  have facts: "dxl_status ?s3 = COMM_ERROR" "dxl_comm_err ?s3 = e"
    "logger ?s3 = logger s @ [Communication_Fail e, Dynamixel_Read_Fail e]"
    by (simp_all add: log_msg_add_def lg1)
  have t3: "t2j_ok ?s3" using t1 by (simp add: t2j_ok_def log_msg_add_def)
  have so3: "sensor_ok ?s3" using so1 by (simp add: sensor_ok_def log_msg_add_def)
  from read_rest_run [OF t3 so3, of L]
  obtain s' where rr: "read_rest L ?s3 = (Inr return_OK, s')"
    and keep: "dxl_status s' = dxl_status ?s3" "logger s' = logger ?s3" "dxl_comm_err s' = dxl_comm_err ?s3"
    by blast
  have hw: "read L s = (Inr return_OK, s')" if "dxl_status s = HW_ERROR"
    using that rd rr e by (simp add: read_def ebind_def modify_def)
  have oth: "read L s = (Inr return_ERROR, ?s3)" if "dxl_status s = DXL_OK \<or> dxl_status s = COMM_ERROR"
    using that rd e by (auto simp: read_def ebind_def modify_def ret_def)
  show ?thesis
    using hw oth keep facts by auto
qed

theorem read_transport_failure_witness:
  "fst (read (link_quiet\<lparr>reply_err := (\<lambda>n c. TRANSPORT_FAIL 7)\<rparr>) (hw_example\<lparr>dxl_status := HW_ERROR\<rparr>))
     = Inr return_OK \<and>
   dxl_status (snd (read (link_quiet\<lparr>reply_err := (\<lambda>n c. TRANSPORT_FAIL 7)\<rparr>)
     (hw_example\<lparr>dxl_status := HW_ERROR\<rparr>))) = COMM_ERROR \<and>
   fst (read (link_quiet\<lparr>reply_err := (\<lambda>n c. TRANSPORT_FAIL 7)\<rparr>) hw_example) = Inr return_ERROR"
proof -
  let ?L = "link_quiet\<lparr>reply_err := (\<lambda>n c. TRANSPORT_FAIL 7)\<rparr>"
  have h1: "t2j_ok (hw_example\<lparr>dxl_status := HW_ERROR\<rparr>)" "t2j_ok hw_example"
    by (simp_all add: t2j_ok_def hw_example_def)
  have h2: "sensor_ok (hw_example\<lparr>dxl_status := HW_ERROR\<rparr>)" "sensor_ok hw_example"
    by (simp_all add: sensor_ok_def hw_example_def)
  have h3: "reply_err ?L n ReadMultiDxlData = TRANSPORT_FAIL 7" for n by simp
  have h4: "TRANSPORT_FAIL 7 \<noteq> OK" by simp
  have st: "dxl_status hw_example = DXL_OK" by (simp add: hw_example_def)
  show ?thesis
    using read_transport_failure [OF h1(1) h2(1) h3 h4]
      read_transport_failure [OF h1(2) h2(2) h3 h4] st
    by auto
qed


section \<open>The write step\<close>

lemma j2t_ok_after_sync:
  assumes j: "j2t_ok s0" and fr: "sync_frame s0 s1"
  shows "j2t_ok s1"
proof -
  have e: "s1 = s0\<lparr>hdl_joint_commands := hdl_joint_commands s1\<rparr>"
    and ne: "\<forall>c \<in> set (hdl_joint_commands s1). value_ptr_vec c \<noteq> []"
    using fr by (simp_all add: sync_frame_def)
  have len: "length (hdl_joint_commands s1) = length (hdl_joint_commands s0)"
    using sync_frame_facts(2) [OF fr] .
  have tk: "\<forall>h \<in> set (take (num_of_joints s0) (hdl_joint_commands s1)). value_ptr_vec h \<noteq> []"
    using ne by (auto dest: in_set_takeD)
  have "j2t_ok (s0\<lparr>hdl_joint_commands := hdl_joint_commands s1\<rparr>)"
    using j len tk by (simp add: j2t_ok_def)
  then show ?thesis using e by simp
qed

text \<open>
  Claim C2, as the code has it. With the status \<^verbatim>\<open>DXL_OK\<close> or \<^verbatim>\<open>HW_ERROR\<close> the write
  step is carried out: buffered item writes, the torque step, the joint to
  transmission mapping and the bulk write, in this order, and it returns \<^verbatim>\<open>OK\<close>. With
  the status \<^verbatim>\<open>COMM_ERROR\<close> or \<^verbatim>\<open>REBOOTING\<close> it is refused: it returns \<^verbatim>\<open>ERROR\<close> and
  the state, so the log of driver calls, is as it was.
\<close>

theorem write_step_gate:
  "(dxl_status s = DXL_OK \<or> dxl_status s = HW_ERROR \<longrightarrow> write_ok s \<longrightarrow>
      (\<exists>s'. write_hw L s = (Inr return_OK, s') \<and>
         io_log s' = io_log s @ [WriteItemBuf] @ torque_call s @ [GetDxlTorqueState, WriteMultiDxlData] \<and>
         dxl_status s' = dxl_status s \<and>
         (\<forall>i < num_of_transmissions s.
            value_ptr_vec (hdl_trans_commands s' ! i) ! 0 = J2T_sum s' i))) \<and>
   (dxl_status s = COMM_ERROR \<or> dxl_status s = REBOOTING \<longrightarrow>
      write_hw L s = (Inr return_ERROR, s))"
proof (intro conjI impI)
  assume "dxl_status s = COMM_ERROR \<or> dxl_status s = REBOOTING"
  then show "write_hw L s = (Inr return_ERROR, s)" by (auto simp: write_hw_def)
next
  assume st: "dxl_status s = DXL_OK \<or> dxl_status s = HW_ERROR" and ok: "write_ok s"
  let ?s0 = "link_do L WriteItemBuf s"
  have j0: "j2t_ok ?s0" using ok by (simp add: write_ok_def j2t_ok_def link_do_def)
  have rq: "torque_requested ?s0 = torque_requested s" "torque_call ?s0 = torque_call s"
    by (simp_all add: torque_requested_def torque_call_def link_do_def)
  have so: "torque_requested ?s0 \<longrightarrow> sync_ok ?s0" using ok rq by (simp add: write_ok_def)
  from ChangeDxlTorqueState_run [OF so, of L]
  obtain s1 where r: "ChangeDxlTorqueState L ?s0 = (Inr (), after_query L s1)"
    and log: "io_log s1 = io_log ?s0 @ torque_call ?s0"
    and alt: "if torque_requested ?s0
            then sync_frame (link_do L (hd (torque_call ?s0)) ?s0) s1 \<and>
                 sync_inv (link_do L (hd (torque_call ?s0)) ?s0) UNIV s1
            else s1 = ?s0"
    by blast
  have j1: "j2t_ok s1 \<and> dxl_status s1 = dxl_status s"
  proof (cases "torque_requested ?s0")
    case True
    let ?sc = "link_do L (hd (torque_call ?s0)) ?s0"
    have fr: "sync_frame ?sc s1" using alt True by simp
    have "j2t_ok ?sc" using j0 by (simp add: j2t_ok_def link_do_def)
    then have "j2t_ok s1" using j2t_ok_after_sync fr by blast
    moreover have e1: "s1 = ?sc\<lparr>hdl_joint_commands := hdl_joint_commands s1\<rparr>"
      using fr by (simp add: sync_frame_def)
    have "dxl_status s1 = dxl_status ?sc" by (subst e1) simp
    ultimately show ?thesis by (simp add: link_do_def)
  next
    case False
    then show ?thesis using alt j0 by (simp add: link_do_def)
  qed
  let ?s2 = "after_query L s1"
  have j2: "j2t_ok ?s2" using j1 by (simp add: j2t_ok_def after_query_def link_do_def)
  from CalcJointToTransmission_run [OF j2]
  obtain tc' where c: "CalcJointToTransmission ?s2 = (Inr (), ?s2\<lparr>hdl_trans_commands := tc'\<rparr>)"
    and pt: "\<forall>i < length (hdl_trans_commands ?s2).
              tc' ! i =
                (if i < num_of_transmissions ?s2 then
                   (hdl_trans_commands ?s2 ! i)\<lparr>value_ptr_vec :=
                      (value_ptr_vec (hdl_trans_commands ?s2 ! i))[0 := J2T_sum ?s2 i]\<rparr>
                 else hdl_trans_commands ?s2 ! i)"
    by blast
  let ?s' = "link_do L WriteMultiDxlData (?s2\<lparr>hdl_trans_commands := tc'\<rparr>)"
  have nt2: "num_of_transmissions ?s2 = num_of_transmissions s"
  proof (cases "torque_requested ?s0")
    case True
    let ?sc = "link_do L (hd (torque_call ?s0)) ?s0"
    have e1: "s1 = ?sc\<lparr>hdl_joint_commands := hdl_joint_commands s1\<rparr>"
      using alt True by (simp add: sync_frame_def)
    have "num_of_transmissions s1 = num_of_transmissions ?sc" by (subst e1) simp
    then show ?thesis by (simp add: after_query_def link_do_def)
  next
    case False
    then show ?thesis using alt by (simp add: after_query_def link_do_def)
  qed
  have mp: "value_ptr_vec (hdl_trans_commands ?s' ! i) ! 0 = J2T_sum ?s' i"
    if i: "i < num_of_transmissions s" for i
  proof -
    have i2: "i < num_of_transmissions ?s2" using i nt2 by simp
    have le: "num_of_transmissions ?s2 \<le> length (hdl_trans_commands ?s2)"
      using j2 by (simp add: j2t_ok_def)
    have ne: "value_ptr_vec (hdl_trans_commands ?s2 ! i) \<noteq> []"
      using take_ball_nth [where P = "\<lambda>h. value_ptr_vec h \<noteq> []", OF _ le i2] j2
      by (simp add: j2t_ok_def)
    have "tc' ! i = (hdl_trans_commands ?s2 ! i)\<lparr>value_ptr_vec :=
                      (value_ptr_vec (hdl_trans_commands ?s2 ! i))[0 := J2T_sum ?s2 i]\<rparr>"
      using pt i2 le by simp
    then have "value_ptr_vec (tc' ! i) ! 0 = J2T_sum ?s2 i" using ne by simp
    moreover have "J2T_sum ?s' i = J2T_sum ?s2 i" by (simp add: J2T_sum_def link_do_def)
    ultimately show ?thesis by (simp add: link_do_def)
  qed
  have w: "write_hw L s = (Inr return_OK, ?s')"
    using st r c by (auto simp: write_hw_def ebind_def modify_def ret_def)
  have l: "io_log ?s' = io_log s @ [WriteItemBuf] @ torque_call s @ [GetDxlTorqueState, WriteMultiDxlData]"
    using log rq by (simp add: after_query_def link_do_def)
  have d: "dxl_status ?s' = dxl_status s"
    using j1 by (simp add: after_query_def link_do_def)
  show "\<exists>s'. write_hw L s = (Inr return_OK, s') \<and>
         io_log s' = io_log s @ [WriteItemBuf] @ torque_call s @ [GetDxlTorqueState, WriteMultiDxlData] \<and>
         dxl_status s' = dxl_status s \<and>
         (\<forall>i < num_of_transmissions s.
            value_ptr_vec (hdl_trans_commands s' ! i) ! 0 = J2T_sum s' i)"
    using w l d mp by blast
qed

theorem write_step_gate_witness:
  "write_ok (hw_example\<lparr>dxl_status := HW_ERROR\<rparr>) \<and>
   fst (write_hw link_quiet (hw_example\<lparr>dxl_status := HW_ERROR\<rparr>)) = Inr return_OK \<and>
   io_log (snd (write_hw link_quiet (hw_example\<lparr>dxl_status := HW_ERROR\<rparr>)))
     = [WriteItemBuf, GetDxlTorqueState, WriteMultiDxlData] \<and>
   write_hw link_quiet (hw_example\<lparr>dxl_status := REBOOTING\<rparr>)
     = (Inr return_ERROR, hw_example\<lparr>dxl_status := REBOOTING\<rparr>)"
proof -
  have h: "write_ok (hw_example\<lparr>dxl_status := HW_ERROR\<rparr>)"
    by (simp add: write_ok_def j2t_ok_def torque_requested_def hw_example_def)
  have l: "io_log (hw_example\<lparr>dxl_status := HW_ERROR\<rparr>) = []"
    "torque_call (hw_example\<lparr>dxl_status := HW_ERROR\<rparr>) = []"
    by (simp_all add: torque_call_def hw_example_def)
  show ?thesis
    using h l write_step_gate [of "hw_example\<lparr>dxl_status := HW_ERROR\<rparr>" link_quiet]
      write_step_gate [of "hw_example\<lparr>dxl_status := REBOOTING\<rparr>" link_quiet]
    by auto
qed

text \<open>
  Claim C2 as stated fails: with the status \<^verbatim>\<open>COMM_ERROR\<close> the write step returns
  \<^verbatim>\<open>ERROR\<close> and does nothing, as the comment \<^verbatim>\<open>REBOOTING and COMM_ERROR\<close> on that branch
  of the source says.
\<close>

theorem write_refused_on_comm_error:
  "write_hw link_quiet (hw_example\<lparr>dxl_status := COMM_ERROR\<rparr>)
     = (Inr return_ERROR, hw_example\<lparr>dxl_status := COMM_ERROR\<rparr>)"
  by (simp add: write_hw_def)

section \<open>Lifetime of a torque request\<close>

lemma write_hw_run:
  assumes st: "dxl_status s = DXL_OK \<or> dxl_status s = HW_ERROR" and ok: "write_ok s"
  shows "\<exists>s1 tc'. write_hw L s =
             (Inr return_OK,
              link_do L WriteMultiDxlData ((after_query L s1)\<lparr>hdl_trans_commands := tc'\<rparr>)) \<and>
           io_log s1 = io_log s @ [WriteItemBuf] @ torque_call s"
proof -
  let ?s0 = "link_do L WriteItemBuf s"
  have j0: "j2t_ok ?s0" using ok by (simp add: write_ok_def j2t_ok_def link_do_def)
  have rq: "torque_requested ?s0 = torque_requested s" "torque_call ?s0 = torque_call s"
    by (simp_all add: torque_requested_def torque_call_def link_do_def)
  have so: "torque_requested ?s0 \<longrightarrow> sync_ok ?s0" using ok rq by (simp add: write_ok_def)
  from ChangeDxlTorqueState_run [OF so, of L]
  obtain s1 where r: "ChangeDxlTorqueState L ?s0 = (Inr (), after_query L s1)"
    and log: "io_log s1 = io_log ?s0 @ torque_call ?s0"
    and alt: "if torque_requested ?s0
            then sync_frame (link_do L (hd (torque_call ?s0)) ?s0) s1 \<and>
                 sync_inv (link_do L (hd (torque_call ?s0)) ?s0) UNIV s1
            else s1 = ?s0"
    by blast
  have j1: "j2t_ok s1"
  proof (cases "torque_requested ?s0")
    case True
    let ?sc = "link_do L (hd (torque_call ?s0)) ?s0"
    have fr: "sync_frame ?sc s1" using alt True by simp
    have "j2t_ok ?sc" using j0 by (simp add: j2t_ok_def link_do_def)
    then show ?thesis using j2t_ok_after_sync fr by blast
  next
    case False
    then show ?thesis using alt j0 by simp
  qed
  have j2: "j2t_ok (after_query L s1)"
    using j1 by (simp add: j2t_ok_def after_query_def link_do_def)
  from CalcJointToTransmission_run [OF j2]
  obtain tc' where c: "CalcJointToTransmission (after_query L s1) =
                         (Inr (), (after_query L s1)\<lparr>hdl_trans_commands := tc'\<rparr>)"
    by blast
  have w: "write_hw L s =
             (Inr return_OK,
              link_do L WriteMultiDxlData ((after_query L s1)\<lparr>hdl_trans_commands := tc'\<rparr>))"
    using st r c by (auto simp: write_hw_def ebind_def modify_def ret_def)
  have l: "io_log s1 = io_log s @ [WriteItemBuf] @ torque_call s"
    using log rq by (simp add: link_do_def)
  show ?thesis using w l by blast
qed

text \<open>
  Claim C10, as the code has it. Every call of \<^verbatim>\<open>ChangeDxlTorqueState\<close> that throws
  nothing returns with the torque status \<^verbatim>\<open>TORQUE_ENABLED\<close> or \<^verbatim>\<open>TORQUE_DISABLED\<close>, and
  \<^verbatim>\<open>TORQUE_ENABLED\<close> when the map returned by the driver is empty; it throws nothing when
  no \<^verbatim>\<open>at\<close> of the synchronisation is out of range, which matters only when a request
  is pending. A write step with the status \<^verbatim>\<open>DXL_OK\<close> or \<^verbatim>\<open>HW_ERROR\<close> makes that call, so
  a requested value does not outlive it. A write step with the status \<^verbatim>\<open>COMM_ERROR\<close> or
  \<^verbatim>\<open>REBOOTING\<close> does not make the call: it returns \<^verbatim>\<open>ERROR\<close> and leaves the whole state,
  a requested value included, as it was. The service writes its request whatever the
  status is, so a request made in \<^verbatim>\<open>COMM_ERROR\<close> or \<^verbatim>\<open>REBOOTING\<close> outlives every write
  step until the status changes.
\<close>

theorem torque_request_lifetime:
  "((torque_requested s \<longrightarrow> sync_ok s) \<longrightarrow>
      (\<exists>s'. ChangeDxlTorqueState L s = (Inr (), s') \<and>
         (dxl_torque_status s' = TORQUE_ENABLED \<or> dxl_torque_status s' = TORQUE_DISABLED) \<and>
         (reply_torque L (length (io_log s @ torque_call s)) = [] \<longrightarrow>
            dxl_torque_status s' = TORQUE_ENABLED))) \<and>
   (dxl_status s = DXL_OK \<or> dxl_status s = HW_ERROR \<longrightarrow> write_ok s \<longrightarrow>
      (\<exists>s'. write_hw L s = (Inr return_OK, s') \<and>
         (dxl_torque_status s' = TORQUE_ENABLED \<or> dxl_torque_status s' = TORQUE_DISABLED) \<and>
         (reply_torque L (length (io_log s @ [WriteItemBuf] @ torque_call s)) = [] \<longrightarrow>
            dxl_torque_status s' = TORQUE_ENABLED))) \<and>
   (dxl_status s = COMM_ERROR \<or> dxl_status s = REBOOTING \<longrightarrow>
      write_hw L s = (Inr return_ERROR, s)) \<and>
   (dxl_torque_status s \<noteq> TORQUE_ENABLED \<longrightarrow>
      snd (set_dxl_torque_srv_callback True polls s) = s\<lparr>dxl_torque_status := REQUESTED_TO_ENABLE\<rparr>) \<and>
   (dxl_torque_status s \<noteq> TORQUE_DISABLED \<longrightarrow>
      snd (set_dxl_torque_srv_callback False polls s) = s\<lparr>dxl_torque_status := REQUESTED_TO_DISABLE\<rparr>)"
proof (intro conjI impI)
  assume a: "torque_requested s \<longrightarrow> sync_ok s"
  from ChangeDxlTorqueState_run [OF a, of L]
  obtain s1 where r: "ChangeDxlTorqueState L s = (Inr (), after_query L s1)"
    and log: "io_log s1 = io_log s @ torque_call s" by blast
  show "\<exists>s'. ChangeDxlTorqueState L s = (Inr (), s') \<and>
         (dxl_torque_status s' = TORQUE_ENABLED \<or> dxl_torque_status s' = TORQUE_DISABLED) \<and>
         (reply_torque L (length (io_log s @ torque_call s)) = [] \<longrightarrow>
            dxl_torque_status s' = TORQUE_ENABLED)"
    using r log by (auto simp: after_query_def link_do_def torque_scan_eq)
next
  assume st: "dxl_status s = DXL_OK \<or> dxl_status s = HW_ERROR" and ok: "write_ok s"
  from write_hw_run [OF st ok, of L]
  obtain s1 tc' where w: "write_hw L s =
             (Inr return_OK,
              link_do L WriteMultiDxlData ((after_query L s1)\<lparr>hdl_trans_commands := tc'\<rparr>))"
    and log: "io_log s1 = io_log s @ [WriteItemBuf] @ torque_call s" by blast
  show "\<exists>s'. write_hw L s = (Inr return_OK, s') \<and>
         (dxl_torque_status s' = TORQUE_ENABLED \<or> dxl_torque_status s' = TORQUE_DISABLED) \<and>
         (reply_torque L (length (io_log s @ [WriteItemBuf] @ torque_call s)) = [] \<longrightarrow>
            dxl_torque_status s' = TORQUE_ENABLED)"
    using w log by (auto simp: after_query_def link_do_def torque_scan_eq)
next
  assume "dxl_status s = COMM_ERROR \<or> dxl_status s = REBOOTING"
  then show "write_hw L s = (Inr return_ERROR, s)" by (auto simp: write_hw_def)
next
  assume "dxl_torque_status s \<noteq> TORQUE_ENABLED"
  then show "snd (set_dxl_torque_srv_callback True polls s) =
               s\<lparr>dxl_torque_status := REQUESTED_TO_ENABLE\<rparr>"
    by (simp add: set_dxl_torque_srv_callback_def)
next
  assume "dxl_torque_status s \<noteq> TORQUE_DISABLED"
  then show "snd (set_dxl_torque_srv_callback False polls s) =
               s\<lparr>dxl_torque_status := REQUESTED_TO_DISABLE\<rparr>"
    by (simp add: set_dxl_torque_srv_callback_def)
qed

theorem torque_request_lifetime_witness:
  "sync_ok (hw_example\<lparr>dxl_torque_status := REQUESTED_TO_DISABLE\<rparr>) \<and>
   write_ok (hw_example\<lparr>dxl_torque_status := REQUESTED_TO_DISABLE\<rparr>) \<and>
   dxl_status (hw_example\<lparr>dxl_torque_status := REQUESTED_TO_DISABLE\<rparr>) = DXL_OK \<and>
   dxl_torque_status
     (snd (ChangeDxlTorqueState link_quiet (hw_example\<lparr>dxl_torque_status := REQUESTED_TO_DISABLE\<rparr>)))
     = TORQUE_ENABLED \<and>
   fst (write_hw link_quiet (hw_example\<lparr>dxl_torque_status := REQUESTED_TO_DISABLE\<rparr>))
     = Inr return_OK \<and>
   dxl_torque_status
     (snd (write_hw link_quiet (hw_example\<lparr>dxl_torque_status := REQUESTED_TO_DISABLE\<rparr>)))
     = TORQUE_ENABLED \<and>
   dxl_status hw_comm_error = COMM_ERROR \<and>
   dxl_torque_status hw_comm_error = TORQUE_DISABLED \<and>
   snd (set_dxl_torque_srv_callback True [] hw_comm_error)
     = hw_comm_error\<lparr>dxl_torque_status := REQUESTED_TO_ENABLE\<rparr> \<and>
   write_hw link_quiet (hw_comm_error\<lparr>dxl_torque_status := REQUESTED_TO_ENABLE\<rparr>)
     = (Inr return_ERROR, hw_comm_error\<lparr>dxl_torque_status := REQUESTED_TO_ENABLE\<rparr>) \<and>
   dxl_torque_status hw_example = TORQUE_ENABLED \<and>
   snd (set_dxl_torque_srv_callback False [] hw_example)
     = hw_example\<lparr>dxl_torque_status := REQUESTED_TO_DISABLE\<rparr>"
proof -
  let ?s = "hw_example\<lparr>dxl_torque_status := REQUESTED_TO_DISABLE\<rparr>"
  let ?c = "hw_comm_error\<lparr>dxl_torque_status := REQUESTED_TO_ENABLE\<rparr>"
  have h: "sync_ok ?s" by (simp add: sync_ok_def hw_example_def)
  have w: "write_ok ?s" using h by (simp add: write_ok_def j2t_ok_def hw_example_def)
  have d: "dxl_status ?s = DXL_OK" by (simp add: hw_example_def)
  have e: "dxl_status hw_comm_error = COMM_ERROR" "dxl_status ?c = COMM_ERROR"
    "dxl_torque_status hw_comm_error = TORQUE_DISABLED"
    "dxl_torque_status hw_example = TORQUE_ENABLED"
    by (simp_all add: hw_comm_error_def hw_example_def)
  have q: "reply_torque link_quiet n = []" for n by (simp add: link_quiet_def)
  note t1 = torque_request_lifetime [of ?s link_quiet "[]"]
  from t1 h q obtain s' where "ChangeDxlTorqueState link_quiet ?s = (Inr (), s')"
    and "dxl_torque_status s' = TORQUE_ENABLED" by blast
  then have c1: "dxl_torque_status (snd (ChangeDxlTorqueState link_quiet ?s)) = TORQUE_ENABLED"
    by simp
  from t1 w d q obtain s'' where "write_hw link_quiet ?s = (Inr return_OK, s'')"
    and "dxl_torque_status s'' = TORQUE_ENABLED" by blast
  then have c2: "fst (write_hw link_quiet ?s) = Inr return_OK"
    "dxl_torque_status (snd (write_hw link_quiet ?s)) = TORQUE_ENABLED"
    by simp_all
  from torque_request_lifetime [of hw_comm_error link_quiet "[]"] e(3)
  have c3: "snd (set_dxl_torque_srv_callback True [] hw_comm_error) =
              hw_comm_error\<lparr>dxl_torque_status := REQUESTED_TO_ENABLE\<rparr>" by simp
  from torque_request_lifetime [of ?c link_quiet "[]"] e(2)
  have c4: "write_hw link_quiet ?c = (Inr return_ERROR, ?c)" by blast
  from torque_request_lifetime [of hw_example link_quiet "[]"] e(4)
  have c5: "snd (set_dxl_torque_srv_callback False [] hw_example) =
              hw_example\<lparr>dxl_torque_status := REQUESTED_TO_DISABLE\<rparr>" by simp
  show ?thesis
    by (intro conjI) (rule h w d c1 c2 e c3 c4 c5)+
qed

text \<open>
  Claim C10 as stated fails: a requested value survives a write tick. After a failed
  bulk read the status is \<^verbatim>\<open>COMM_ERROR\<close>; the service is asked to enable the torque and
  writes \<^verbatim>\<open>REQUESTED_TO_ENABLE\<close>; the next cycle, on a driver that answers \<^verbatim>\<open>OK\<close> to
  every call, reads without error, which leaves the status \<^verbatim>\<open>COMM_ERROR\<close>, and its write
  step is refused without a call on the driver: the torque status is still
  \<^verbatim>\<open>REQUESTED_TO_ENABLE\<close>, and the service, which saw no other value, answers failure.
\<close>

theorem torque_request_survives_write_tick:
  "dxl_status hw_comm_error = COMM_ERROR \<and>
   success (fst (set_dxl_torque_srv_callback True
      [REQUESTED_TO_ENABLE, REQUESTED_TO_ENABLE] hw_comm_error)) = False \<and>
   dxl_torque_status (snd (set_dxl_torque_srv_callback True
      [REQUESTED_TO_ENABLE, REQUESTED_TO_ENABLE] hw_comm_error)) = REQUESTED_TO_ENABLE \<and>
   fst (read link_quiet (hw_comm_error\<lparr>dxl_torque_status := REQUESTED_TO_ENABLE\<rparr>))
     = Inr return_OK \<and>
   dxl_status (snd (read link_quiet (hw_comm_error\<lparr>dxl_torque_status := REQUESTED_TO_ENABLE\<rparr>)))
     = COMM_ERROR \<and>
   fst (write_hw link_quiet
          (snd (read link_quiet (hw_comm_error\<lparr>dxl_torque_status := REQUESTED_TO_ENABLE\<rparr>))))
     = Inr return_ERROR \<and>
   dxl_torque_status
     (snd (write_hw link_quiet
        (snd (read link_quiet (hw_comm_error\<lparr>dxl_torque_status := REQUESTED_TO_ENABLE\<rparr>)))))
     = REQUESTED_TO_ENABLE \<and>
   io_log
     (snd (write_hw link_quiet
        (snd (read link_quiet (hw_comm_error\<lparr>dxl_torque_status := REQUESTED_TO_ENABLE\<rparr>)))))
     = [ReadMultiDxlData, ReadItemBuf]"
  by (simp add: eval_defs set_dxl_torque_srv_callback_def link_quiet_def hw_comm_error_def
      hw_example_def)



section \<open>Hardware error bits\<close>

text \<open>
  A byte with one of the five error bits set always gets a cause list that is not
  empty: the masks of the source cover the bits \<^verbatim>\<open>0x10\<close> and \<^verbatim>\<open>0x20\<close>. They cover more.
\<close>

lemma and_mask_mono:
  fixes e :: u8
  assumes "e AND m \<noteq> 0" and "m' AND m = m"
  shows "e AND m' \<noteq> 0"
proof
  assume "e AND m' = 0"
  then have "(e AND m') AND m = 0" by simp
  then have "e AND (m' AND m) = 0" by (simp add: and.assoc)
  then show False using assms by simp
qed

lemma error_string_of_nonempty:
  "error_string_of e \<noteq> [] \<longleftrightarrow>
     e AND 0x01 \<noteq> 0 \<or> e AND 0x04 \<noteq> 0 \<or> e AND 0x08 \<noteq> 0 \<or> e AND 0x16 \<noteq> 0 \<or> e AND 0x32 \<noteq> 0"
  by (simp add: error_string_of_def)

lemma real_error_bits_reported:
  fixes e :: u8
  assumes "e AND 0x01 \<noteq> 0 \<or> e AND 0x04 \<noteq> 0 \<or> e AND 0x08 \<noteq> 0 \<or> e AND 0x10 \<noteq> 0 \<or> e AND 0x20 \<noteq> 0"
  shows "error_string_of e \<noteq> []"
proof -
  have a: "e AND 0x10 \<noteq> 0 \<Longrightarrow> e AND 0x16 \<noteq> 0"
    by (rule and_mask_mono [where m = "0x10"]) simp_all
  have b: "e AND 0x20 \<noteq> 0 \<Longrightarrow> e AND 0x32 \<noteq> 0"
    by (rule and_mask_mono [where m = "0x20"]) simp_all
  show ?thesis using assms a b unfolding error_string_of_nonempty by blast
qed

text \<open>
  Claim C4, at the input where the code departs from it. The masks of the first
  three tests are the single bits \<^verbatim>\<open>0x01\<close>, \<^verbatim>\<open>0x04\<close>, \<^verbatim>\<open>0x08\<close>; the last two are
  written \<^verbatim>\<open>0x16\<close> and \<^verbatim>\<open>0x32\<close> (bits 1, 2, 4 and bits 1, 4, 5) where the bits 4 and
  5 are \<^verbatim>\<open>0x10\<close> and \<^verbatim>\<open>0x20\<close>. So the byte 2, which has none of the five error bits
  0, 2, 3, 4, 5, is classified as a hardware error with the causes electrical shock
  and overload, and the byte 4 (overheating alone) is logged with electrical shock
  as a second cause.
\<close>

theorem hardware_error_masks_overlap:
  "fst (CheckError OK hw_bit1) = Inr DLX_HARDWARE_ERROR \<and>
   dxl_status (snd (CheckError OK hw_bit1)) = HW_ERROR \<and>
   dxl_hw_err (snd (CheckError OK hw_bit1)) 5 = 2 \<and>
   logger (snd (CheckError OK hw_bit1)) = [Hardware_Error_States 5 2 ''electrical shork/ Overload/ ''] \<and>
   logger (snd (CheckError OK hw_overheating)) =
     [Hardware_Error_States 5 4 ''overheating/ electrical shork/ '']"
  by (simp add: eval_defs hw_bit1_def hw_overheating_def hw_example_def)

section \<open>A communication reset that runs out of time\<close>

text \<open>
  A pass of the reset loop that fails leaves the status alone, and so does a
  \<^verbatim>\<open>start\<close> whose bulk read is clean.
\<close>

lemma status_reboot_all: "dxl_status (snd (reboot_all L ids s)) = dxl_status s"
  by (induction ids arbitrary: s) (simp_all add: log_msg_add_def link_do_def usleep_def)

lemma status_write_items: "dxl_status (snd (write_items L xs s)) = dxl_status s"
proof (induction xs arbitrary: s)
  case Nil
  then show ?case by simp
next
  case (Cons x xs)
  obtain i nm v where x: "x = (i, nm, v)" by (cases x)
  show ?case using Cons.IH [of "link_do L (WriteItem i nm v) s"] x
    by (simp add: log_msg_add_def link_do_def)
qed

lemma status_set_items: "dxl_status (snd (set_items L c xs s)) = dxl_status s"
proof (induction xs arbitrary: s)
  case Nil
  then show ?case by simp
next
  case (Cons x xs)
  show ?case using Cons.IH [of "link_do L (c (hdl_id x) (interface_name_vec x)) s"]
    by (simp add: link_do_def)
qed

lemma status_reset_attempt: "dxl_status (snd (reset_attempt L s)) = dxl_status s"
proof -
  obtain b1 s1 where r1: "reboot_all L (dxl_id s) (usleep 200000 s) = (b1, s1)" by force
  obtain b2 s2 where r2: "InitDxlItems L s1 = (b2, s2)" by force
  obtain b3 s3 where r3: "InitDxlReadItems L s2 = (b3, s3)" by force
  obtain b4 s4 where r4: "InitDxlWriteItems L s3 = (b4, s4)" by force
  have c1: "dxl_status s1 = dxl_status s"
    using status_reboot_all [of L "dxl_id s" "usleep 200000 s"] r1 by (simp add: usleep_def)
  have c2: "dxl_status s2 = dxl_status s1"
  proof -
    have "dxl_status (snd (InitDxlItems L s1)) = dxl_status s1"
      unfolding InitDxlItems_def by (rule status_write_items)
    then show ?thesis using r2 by simp
  qed
  have c3: "dxl_status s3 = dxl_status s2"
  proof -
    obtain b s' where q: "set_items L SetDxlReadItems (hdl_trans_states s2) s2 = (b, s')" by force
    then have "dxl_status s' = dxl_status s2"
      using status_set_items [of L SetDxlReadItems "hdl_trans_states s2" s2] by simp
    then show ?thesis using r3 q
      by (cases b) (auto simp: InitDxlReadItems_def link_ok_def link_do_def)
  qed
  have c4: "dxl_status s4 = dxl_status s3"
  proof -
    obtain b s' where q: "set_items L SetDxlWriteItems (hdl_trans_commands s3) s3 = (b, s')" by force
    then have "dxl_status s' = dxl_status s3"
      using status_set_items [of L SetDxlWriteItems "hdl_trans_commands s3" s3] by simp
    then show ?thesis using r4 q
      by (cases b) (auto simp: InitDxlWriteItems_def link_ok_def link_do_def)
  qed
  show ?thesis
    using r1 r2 r3 r4 c1 c2 c3 c4
    by (cases b1; cases b2; cases b3; simp add: reset_attempt_def)
qed

lemma not_False_after_success:
  "fst (ebind m (\<lambda>_. ebind (modify g) (\<lambda>_. ret True)) s) \<noteq> Inr False"
  by (auto simp: ebind_def modify_def ret_def split: prod.splits sum.splits)

lemma CommReset_loop_failure_exit:
  "fst (CommReset_loop L t s) = Inr False \<Longrightarrow>
     \<exists>s1. dxl_status s1 = dxl_status s \<and>
          CommReset_loop L t s = ebind (start L) (\<lambda>_. ret False) s1"
proof (induction L t s rule: CommReset_loop.induct)
  case (1 L t s)
  show ?case
  proof (cases "int (clock s) - int t < 3000000")
    case False
    then show ?thesis
      by (intro exI [of _ "usleep 1000000 (log_msg_add RESET_Failure s)"])
         (simp add: usleep_def log_msg_add_def)
  next
    case True
    obtain b s1 where ra: "reset_attempt L s = (b, s1)" by force
    have st1: "dxl_status s1 = dxl_status s" using status_reset_attempt [of L s] ra by simp
    show ?thesis
    proof (cases b)
      case True
      have "CommReset_loop L t s =
              ebind (start L) (\<lambda>_. ebind (modify (\<lambda>s2. s2\<lparr>dxl_status := DXL_OK\<rparr>)) (\<lambda>_. ret True))
                (usleep 1000000 s1)"
        using \<open>int (clock s) - int t < 3000000\<close> ra True by simp
      then have "fst (CommReset_loop L t s) \<noteq> Inr False"
        using not_False_after_success by simp
      then show ?thesis using "1.prems" by simp
    next
      case False
      have eq: "CommReset_loop L t s = CommReset_loop L t s1"
        using \<open>int (clock s) - int t < 3000000\<close> ra False by simp
      then have f1: "fst (CommReset_loop L t s1) = Inr False" using "1.prems" by simp
      have bf: "b = False" using False by simp
      from "1.IH" [OF \<open>int (clock s) - int t < 3000000\<close> ra [symmetric] bf f1]
      obtain s2 where "dxl_status s2 = dxl_status s1"
        and "CommReset_loop L t s1 = ebind (start L) (\<lambda>_. ret False) s2" by auto
      then show ?thesis using eq st1 by auto
    qed
  qed
qed


lemma for_loop_post:
  assumes "J a s"
    and "\<And>i a s a' s'. J a s \<Longrightarrow> body i a s = (Inr a', s') \<Longrightarrow> J a' s'"
    and "for_loop xs body a s = (Inr a', s')"
  shows "J a' s'"
  using assms(1,3)
proof (induction xs arbitrary: a s)
  case Nil
  then show ?case by simp
next
  case (Cons x xs)
  obtain r s1 where b: "body x a s = (r, s1)" by force
  show ?case
  proof (cases r)
    case (Inl e)
    then show ?thesis using Cons.prems(2) b by simp
  next
    case (Inr a1)
    have "J a1 s1" using assms(2) [OF Cons.prems(1)] b Inr by simp
    moreover have "for_loop xs body a1 s1 = (Inr a', s')" using Cons.prems(2) b Inr by simp
    ultimately show ?thesis by (rule Cons.IH)
  qed
qed

lemma check_hw_slot_clean:
  assumes "check_hw_slot i j e s = (Inr e', s')" and "e = OK \<longrightarrow> dxl_status s = x"
  shows "e' = OK \<longrightarrow> dxl_status s' = x"
  using assms
  by (auto simp: check_hw_slot_def Let_def log_msg_add_def split: sum.splits if_splits)

lemma check_hw_errors_clean:
  assumes "check_hw_errors e s = (Inr e', s')" and "e = OK \<longrightarrow> dxl_status s = x"
  shows "e' = OK \<longrightarrow> dxl_status s' = x"
proof (rule for_loop_post [where J = "\<lambda>a s. a = OK \<longrightarrow> dxl_status s = x", OF assms(2) _
      assms(1) [unfolded check_hw_errors_def]])
  fix i a s1 a1 s2
  assume j: "a = OK \<longrightarrow> dxl_status s1 = x"
    and b: "(case at_vec (hdl_trans_states s1) i of
            Inl e \<Rightarrow> (Inl e, s1)
          | Inr h \<Rightarrow> for_loop [0..<length (interface_name_vec h)] (check_hw_slot i) a s1) = (Inr a1, s2)"
  from b obtain h :: HandlerVarType where
    l: "for_loop [0..<length (interface_name_vec h)] (check_hw_slot i) a s1 = (Inr a1, s2)"
    by (auto split: sum.splits)
  show "a1 = OK \<longrightarrow> dxl_status s2 = x"
    by (rule for_loop_post [where J = "\<lambda>a s. a = OK \<longrightarrow> dxl_status s = x", OF j _ l])
       (rule check_hw_slot_clean)
qed

lemma keeps_status_set_hw_state: "keeps (\<lambda>s. dxl_status s = x) (set_hw_state error_state)"
proof (rule keeps_eq [OF set_hw_state_def], rule keeps_for_loop_st, rule keepsI)
  fix i and a :: unit and s :: hw
  assume q: "dxl_status s = x"
  have k: "keeps (\<lambda>s. dxl_status s = x) (for_loop xs
                (\<lambda>j _ s''.
                   if interface_name_vec h ! j = HW_IF_HARDWARE_STATE then
                     (case set_value (hdl_joint_states s'') i j (DxlError_value error_state) of
                        Inl e \<Rightarrow> (Inl e, s'')
                      | Inr js \<Rightarrow> (Inr (), s''\<lparr>hdl_joint_states := js\<rparr>))
                   else (Inr (), s''))
                ())" for xs h
    by (intro keeps_for_loop keepsI) (auto split: sum.splits)
  show "dxl_status (snd (case at_vec (hdl_joint_states s) i of
            Inl e \<Rightarrow> (Inl e, s)
          | Inr h \<Rightarrow>
              for_loop [0..<length (interface_name_vec h)]
                (\<lambda>j _ s''.
                   if interface_name_vec h ! j = HW_IF_HARDWARE_STATE then
                     (case set_value (hdl_joint_states s'') i j (DxlError_value error_state) of
                        Inl e \<Rightarrow> (Inl e, s'')
                      | Inr js \<Rightarrow> (Inr (), s''\<lparr>hdl_joint_states := js\<rparr>))
                   else (Inr (), s''))
                () s)) = x"
    using q keepsD [OF k q] by (auto split: sum.splits)
qed

lemma CheckError_clean:
  assumes "CheckError err s = (Inr r, s')"
  shows "(err \<noteq> OK \<longrightarrow> r \<noteq> OK) \<and> (r = OK \<longrightarrow> dxl_status s' = dxl_status s)"
proof (cases "err = OK")
  case False
  then show ?thesis using assms by (auto simp: CheckError_def)
next
  case True
  obtain r1 s1 where c: "check_hw_errors OK s = (r1, s1)" by force
  show ?thesis
  proof (cases r1)
    case (Inl e)
    then show ?thesis using assms True c by (simp add: CheckError_def ebind_def)
  next
    case (Inr e1)
    have j1: "e1 = OK \<longrightarrow> dxl_status s1 = dxl_status s"
      using check_hw_errors_clean [of OK s e1 s1 "dxl_status s"] c Inr by simp
    obtain r2 s2 where h: "set_hw_state e1 s1 = (r2, s2)" by force
    have st2: "dxl_status s2 = dxl_status s1"
      using keepsD [OF keeps_status_set_hw_state [of "dxl_status s1" e1], of s1] h by simp
    have "r = e1 \<and> s' = s2"
      using assms True c Inr h by (cases r2) (simp_all add: CheckError_def ebind_def ret_def)
    then show ?thesis using True j1 st2 by simp
  qed
qed

lemma read_dxl_clean:
  assumes "read_dxl L s = (Inr r, s')"
  shows "dxl_comm_err s' = r \<and> (r = OK \<longrightarrow> dxl_status s' = dxl_status s)"
proof -
  obtain err s1 where d: "dxl_ReadMultiDxlData L s = (err, s1)" by force
  have st1: "dxl_status s1 = dxl_status s"
    using d by (auto simp: dxl_ReadMultiDxlData_def Let_def link_do_def)
  obtain r1 s2 where c: "CheckError err s1 = (r1, s2)" by force
  show ?thesis
  proof (cases r1)
    case (Inl e)
    then show ?thesis using assms d c by (simp add: read_dxl_def ebind_def)
  next
    case (Inr r0)
    have "r = r0 \<and> s' = s2\<lparr>dxl_comm_err := r0\<rparr>"
      using assms d c Inr by (auto simp: read_dxl_def ebind_def modify_def ret_def)
    then show ?thesis using CheckError_clean [of err s1 r0 s2] c Inr st1 by simp
  qed
qed


lemma keeps_T2J_row: "keeps Q (T2J_row i k)"
  by (rule keeps_eq [OF T2J_row_def])
     (intro keeps_for_loop_st keepsI, auto split: sum.splits)

lemma keeps_CalcTransmissionToJoint:
  assumes "\<And>s js. Q s \<Longrightarrow> Q (s\<lparr>hdl_joint_states := js\<rparr>)"
  shows "keeps Q CalcTransmissionToJoint"
proof -
  have "keeps Q (T2J_channel k)" for k
    by (rule keeps_eq [OF T2J_channel_def])
       (intro keeps_for_loop_st keeps_intros keeps_T2J_row keeps_modify assms)
  then show ?thesis
    unfolding CalcTransmissionToJoint_def by (intro keeps_intros)
qed

lemma keeps_SyncJointCommandWithStates:
  assumes "\<And>s jc. Q s \<Longrightarrow> Q (s\<lparr>hdl_joint_commands := jc\<rparr>)"
  shows "keeps Q SyncJointCommandWithStates"
proof -
  have slot: "keeps Q (sync_slot si k i)" for si k i
    by (rule keepsI) (auto simp: sync_slot_def Let_def assms split: sum.splits)
  have inner: "keeps Q (for_loop xs (\<lambda>i _. sync_slot si k i) ())" for xs si k
    by (intro keeps_for_loop slot)
  have middle: "keeps Q (\<lambda>s2.
               if hdl_name (hdl_joint_states s2 ! si) = hdl_name (hdl_joint_commands s2 ! k)
               then
                 for_loop [0..<length (interface_name_vec (hdl_joint_states s2 ! si))]
                   (\<lambda>i _. sync_slot si k i) () s2
               else (Inr (), s2))" for si k
  proof (rule keepsI)
    fix s2 assume q: "Q s2"
    show "Q (snd (if hdl_name (hdl_joint_states s2 ! si) = hdl_name (hdl_joint_commands s2 ! k)
               then
                 for_loop [0..<length (interface_name_vec (hdl_joint_states s2 ! si))]
                   (\<lambda>i _. sync_slot si k i) () s2
               else (Inr (), s2)))"
      using q keepsD [OF inner q] by simp
  qed
  show ?thesis
    by (rule keeps_eq [OF SyncJointCommandWithStates_def])
       (intro keeps_for_loop_st middle)
qed

lemma start_clean:
  assumes "start L s = (Inr r, s')" and "dxl_comm_err s' = OK"
  shows "dxl_status s' = dxl_status s"
proof -
  obtain r1 s1 where rd: "read_dxl L s = (r1, s1)" by force
  show ?thesis
  proof (cases r1)
    case (Inl e)
    then show ?thesis using assms(1) rd by (simp add: start_def ebind_def)
  next
    case (Inr r0)
    note c = read_dxl_clean [of L s r0 s1]
    show ?thesis
    proof (cases "r0 = OK")
      case False
      then have "s' = log_msg_add (Dynamixel_Start_Fail r0) s1"
        using assms(1) rd Inr by (auto simp: start_def ebind_def modify_def ret_def)
      then have "dxl_comm_err s' = r0" using c rd Inr by (simp add: log_msg_add_def)
      then show ?thesis using False assms(2) by simp
    next
      case True
      let ?Q = "\<lambda>s. dxl_status s = dxl_status s1"
      have k: "keeps ?Q
         (ebind CalcTransmissionToJoint (\<lambda>_.
          ebind SyncJointCommandWithStates (\<lambda>_.
          ebind (modify (usleep 500000)) (\<lambda>_.
          ebind (modify (\<lambda>s. link_do L (DynamixelEnable (dxl_id s)) s)) (\<lambda>_.
          ret SUCCESS)))))"
        by (intro keeps_intros keeps_CalcTransmissionToJoint keeps_SyncJointCommandWithStates
            keeps_modify) (simp_all add: usleep_def link_do_def)
      have "start L s =
          ebind CalcTransmissionToJoint (\<lambda>_.
          ebind SyncJointCommandWithStates (\<lambda>_.
          ebind (modify (usleep 500000)) (\<lambda>_.
          ebind (modify (\<lambda>s. link_do L (DynamixelEnable (dxl_id s)) s)) (\<lambda>_.
          ret SUCCESS)))) s1"
        using rd Inr True by (simp add: start_def ebind_def)
      then have "snd (ebind CalcTransmissionToJoint (\<lambda>_.
          ebind SyncJointCommandWithStates (\<lambda>_.
          ebind (modify (usleep 500000)) (\<lambda>_.
          ebind (modify (\<lambda>s. link_do L (DynamixelEnable (dxl_id s)) s)) (\<lambda>_.
          ret SUCCESS)))) s1) = s'"
        using assms(1) by (metis snd_conv)
      then have "dxl_status s' = dxl_status s1"
        using keepsD [OF k, of s1] by simp
      then show ?thesis using c rd Inr True by simp
    qed
  qed
qed

text \<open>
  Whenever the reset gives up and the bulk read of its last \<^verbatim>\<open>start\<close> finds neither a
  transport failure nor a hardware error, the status is still \<^verbatim>\<open>REBOOTING\<close> and the
  next read step is refused.
\<close>

lemma CommReset_failure_wedges:
  assumes "CommReset L s = (Inr False, s')" and "dxl_comm_err s' = OK"
  shows "dxl_status s' = REBOOTING \<and> read L' s' = (Inr return_ERROR, s')"
proof -
  let ?s2 = "link_do L RWDataReset (link_do L (DynamixelDisable (dxl_id s)) (s\<lparr>dxl_status := REBOOTING\<rparr>))"
  have e: "CommReset L s = CommReset_loop L (clock ?s2) ?s2"
    by (simp add: CommReset_def stop_def ebind_def modify_def ret_def Let_def)
  have st2: "dxl_status ?s2 = REBOOTING" by (simp add: link_do_def)
  have "fst (CommReset_loop L (clock ?s2) ?s2) = Inr False" using assms(1) e by simp
  from CommReset_loop_failure_exit [OF this]
  obtain s1 where s1: "dxl_status s1 = REBOOTING"
    and x: "CommReset_loop L (clock ?s2) ?s2 = ebind (start L) (\<lambda>_. ret False) s1"
    using st2 by auto
  obtain r0 s3 where st: "start L s1 = (r0, s3)" by force
  have "\<exists>r. start L s1 = (Inr r, s')"
    using assms(1) e x st by (cases r0) (simp_all add: ebind_def ret_def)
  then obtain r where "start L s1 = (Inr r, s')" by blast
  from start_clean [OF this assms(2)] s1
  have "dxl_status s' = REBOOTING" by simp
  then show ?thesis by (simp add: read_def)
qed

text \<open>
  Claim C1, at the input where the code departs from it. \<^verbatim>\<open>CommReset\<close> sets the
  status to \<^verbatim>\<open>REBOOTING\<close>; only the pass that succeeds assigns \<^verbatim>\<open>DXL_OK\<close>. When the
  three seconds run out it returns \<^verbatim>\<open>false\<close> after calling \<^verbatim>\<open>start\<close>, and the status
  changes only if the bulk read of \<^verbatim>\<open>start\<close> fails or finds a hardware error. On the
  two drivers here that read succeeds: the status stays \<^verbatim>\<open>REBOOTING\<close> and the next
  read step is refused without any call on the driver.
\<close>

theorem reset_failure_stays_rebooting:
  "fst (CommReset link_no_reboot hw_example) = Inr False \<and>
   dxl_status (snd (CommReset link_no_reboot hw_example)) = REBOOTING \<and>
   last (logger (snd (CommReset link_no_reboot hw_example))) = RESET_Failure \<and>
   read link_quiet (snd (CommReset link_no_reboot hw_example)) =
     (Inr return_ERROR, snd (CommReset link_no_reboot hw_example)) \<and>
   fst (CommReset link_no_write_setup hw_example) = Inr False \<and>
   dxl_status (snd (CommReset link_no_write_setup hw_example)) = REBOOTING \<and>
   read link_quiet (snd (CommReset link_no_write_setup hw_example)) =
     (Inr return_ERROR, snd (CommReset link_no_write_setup hw_example))"
  by (simp add: CommReset_def reset_attempt_def InitDxlItems_def InitDxlReadItems_def
      InitDxlWriteItems_def link_ok_def eval_defs link_no_reboot_def link_no_write_setup_def
      link_quiet_def hw_example_def)


end
